theory Spec2Isabelle
  imports Main "HOL-Library.Word"
begin

section \<open>Data model (dataref-types)\<close>

text \<open>
  A JavaScript string is a sequence of UTF-16 code units, and \<open>s.length\<close> counts them.
  A \<open>Uint8Array\<close> is a sequence of bytes.
\<close>

type_synonym jsstring = "16 word list"
type_synonym bytes = "8 word list"

definition units :: "string \<Rightarrow> jsstring" where
  \<comment> \<open>the code units of an ASCII literal\<close>
  "units s = map (\<lambda>c. of_nat (of_char c)) s"

text \<open>
  The run-time values a \<open>DataRef.value\<close> holds: a string, or a JSON structure
  (the declared type is \<open>T = string\<close>, the comments of the type allow an object).
  Numbers are kept as integers: the code reads a number only through its truthiness
  and through a comparison with the threshold. A key occurs once in a \<open>JObj\<close>.
\<close>

datatype jsvalue =
    JNull
  | JBool bool
  | JNum int
  | JStr jsstring
  | JArr "jsvalue list"
  | JObj "(jsstring \<times> jsvalue) list"

datatype DataRefType = base64 | url | utf8 | json | hash

record DataRef =
  "value" :: jsvalue
  hash :: "jsstring option"
  type :: "DataRefType option"

definition DataRefTypeDefault :: DataRefType where
  "DataRefTypeDefault = base64"

text \<open>
  An \<open>InputsRefs\<close> object: its own properties in the order \<open>Object.keys\<close> lists them.
  A key occurs once in an object; \<open>inputs[name]\<close> is \<open>map_of inputs name\<close>.
\<close>

type_synonym InputsRefs = "(jsstring \<times> DataRef) list"

datatype Blob = Blob bytes

section \<open>What the code takes from outside\<close>

datatype error =
    Thrown jsstring
  | TypeError
  | Rejected jsstring

text \<open>
  \<open>Thrown\<close> is a \<open>throw\<close> of a string by this code, \<open>TypeError\<close> a property read on
  \<open>null\<close> or \<open>undefined\<close>, \<open>Rejected\<close> an exception or a rejected promise of a
  library or injected function.
\<close>

datatype hashed = HString jsstring | HBytes bytes

text \<open>
  The functions of the language and of the imported packages, as parameters:
  \<open>JSON.stringify\<close>, \<open>Unibabel.utf8ToBuffer\<close>, \<open>Unibabel.base64ToBuffer\<close>,
  \<open>objectHash.sha1\<close> (applied in this code to a string and to a \<open>Uint8Array\<close>),
  \<open>fetch\<close> followed by \<open>arrayBuffer\<close>, and the conversion \<open>ToNumber\<close> of a string,
  array or object (\<open>None\<close> is \<open>NaN\<close>). The code hands \<open>value\<close> to them as it is,
  so they take a \<open>jsvalue\<close>.
\<close>

record lib =
  stringify :: "jsvalue \<Rightarrow> jsstring"
  utf8ToBuffer :: "jsvalue \<Rightarrow> error + bytes"
  base64ToBuffer :: "jsvalue \<Rightarrow> error + bytes"
  sha1 :: "hashed \<Rightarrow> jsstring"
  fetch :: "jsvalue \<Rightarrow> error + bytes"
  toNumber :: "jsvalue \<Rightarrow> int option"

text \<open>
  The injected upload function of \<open>copyLargeBlobsToRemote\<close>, with the state \<open>'s\<close> of the
  remote side threaded through the calls. A call that resolves gives an object: its
  identity (two calls that give the same identity gave the same object), its fields when
  the call returns it, and the time at which the promise settles. The caller's own
  entries are values of the model and have no identity: an upload function that returns
  one of the caller's input objects is outside the model.
\<close>

record uploaded =
  ident :: nat
  body :: DataRef
  settles :: nat

type_synonym 's UploadFunc = "bytes \<Rightarrow> 's \<Rightarrow> (error + uploaded) \<times> 's"

section \<open>Language semantics the code relies on\<close>

fun truthy :: "jsvalue \<Rightarrow> bool" where
  "truthy JNull = False"
| "truthy (JBool b) = b"
| "truthy (JNum n) = (n \<noteq> 0)"
| "truthy (JStr s) = (s \<noteq> [])"
| "truthy (JArr xs) = True"
| "truthy (JObj kvs) = True"

fun lengthOf :: "jsvalue \<Rightarrow> error + jsvalue option" where
  \<comment> \<open>\<open>v.length\<close>; \<open>None\<close> is \<open>undefined\<close>\<close>
  "lengthOf JNull = Inl TypeError"
| "lengthOf (JBool b) = Inr None"
| "lengthOf (JNum n) = Inr None"
| "lengthOf (JStr s) = Inr (Some (JNum (int (length s))))"
| "lengthOf (JArr xs) = Inr (Some (JNum (int (length xs))))"
| "lengthOf (JObj kvs) = Inr (map_of kvs (units ''length''))"

fun greater :: "lib \<Rightarrow> jsvalue option \<Rightarrow> int \<Rightarrow> bool" where
  \<comment> \<open>\<open>x > k\<close> for a number \<open>k\<close>\<close>
  "greater L None k = False"
| "greater L (Some (JNum n)) k = (n > k)"
| "greater L (Some JNull) k = (0 > k)"
| "greater L (Some (JBool b)) k = ((if b then 1 else 0) > k)"
| "greater L (Some v) k = (case toNumber L v of None \<Rightarrow> False | Some n \<Rightarrow> n > k)"

section \<open>dataref.ts\<close>

definition ENV_VAR_DATA_ITEM_LENGTH_MAX :: int where
  "ENV_VAR_DATA_ITEM_LENGTH_MAX = 200"

definition effectiveType :: "DataRef \<Rightarrow> DataRefType" where
  \<comment> \<open>\<open>dataRef.type || DataRefTypeDefault\<close>\<close>
  "effectiveType dataRef = (case type dataRef of None \<Rightarrow> DataRefTypeDefault | Some t \<Rightarrow> t)"

definition lengthExceeds :: "lib \<Rightarrow> jsvalue \<Rightarrow> error + bool" where
  \<comment> \<open>\<open>value.length > ENV_VAR_DATA_ITEM_LENGTH_MAX\<close>\<close>
  "lengthExceeds L v =
     (case lengthOf v of
        Inl e \<Rightarrow> Inl e
      | Inr l \<Rightarrow> Inr (greater L l ENV_VAR_DATA_ITEM_LENGTH_MAX))"

definition ifBig :: "error + bytes \<Rightarrow> error + bytes option" where
  "ifBig r = (case r of Inl e \<Rightarrow> Inl e | Inr b \<Rightarrow> Inr (Some b))"

definition uint8ArrayIfBig :: "lib \<Rightarrow> DataRef \<Rightarrow> error + bytes option" where
  \<comment> \<open>the \<open>switch\<close> of \<open>copyLargeBlobsToRemote\<close>; \<open>None\<close> is \<open>undefined\<close>\<close>
  "uint8ArrayIfBig L ref =
     (case effectiveType ref of
        DataRefType.hash \<Rightarrow> Inr None
      | json \<Rightarrow>
          if truthy (value ref) then
            (let jsonString = stringify L (value ref) in
             if int (length jsonString) > ENV_VAR_DATA_ITEM_LENGTH_MAX
             then ifBig (utf8ToBuffer L (JStr jsonString))
             else Inr None)
          else Inr None
      | utf8 \<Rightarrow>
          (case lengthExceeds L (value ref) of
             Inl e \<Rightarrow> Inl e
           | Inr big \<Rightarrow> if big then ifBig (utf8ToBuffer L (value ref)) else Inr None)
      | _ \<Rightarrow>
          (case lengthExceeds L (value ref) of
             Inl e \<Rightarrow> Inl e
           | Inr big \<Rightarrow> if big then ifBig (base64ToBuffer L (value ref)) else Inr None))"

text \<open>
  One callback of the \<open>map\<close> over \<open>Object.keys(inputs)\<close>, up to its \<open>await\<close>: it has
  thrown, or it has assigned \<open>result[name] = inputs[name]\<close>, or it has computed the hash,
  called upload and waits for the promise. With it come the upload calls it made (each
  with its argument and what the call settles with) and the state of the remote side.
\<close>

type_synonym ('a, 'r) call = "'a \<times> (error + 'r)"

datatype started =
    Rejects error
  | Keeps DataRef
  | Awaits jsstring "error + uploaded"

definition entry ::
  "lib \<Rightarrow> InputsRefs \<Rightarrow> 's UploadFunc \<Rightarrow> jsstring \<Rightarrow> 's \<Rightarrow>
     started \<times> (bytes, uploaded) call list \<times> 's" where
  "entry L inputs upload name s =
     (case map_of inputs name of
        None \<Rightarrow> (Rejects TypeError, [], s)
      | Some ref \<Rightarrow>
          (case uint8ArrayIfBig L ref of
             Inl e \<Rightarrow> (Rejects e, [], s)
           | Inr None \<Rightarrow> (Keeps ref, [], s)
           | Inr (Some buf) \<Rightarrow>
               (let h = sha1 L (HBytes buf) in
                case upload buf s of
                  (r, s') \<Rightarrow> (Awaits h r, [(buf, r)], s'))))"

text \<open>
  The callbacks are started in key order, and every one is started whatever the others
  do: the \<open>map\<close> runs each callback up to its \<open>await\<close> before anything that was awaited
  continues. Each upload call is recorded with the name of the entry that made it.
\<close>

fun entries ::
  "lib \<Rightarrow> InputsRefs \<Rightarrow> 's UploadFunc \<Rightarrow> jsstring list \<Rightarrow> 's \<Rightarrow>
     (jsstring \<times> started) list \<times> (jsstring \<times> (bytes, uploaded) call) list \<times> 's" where
  "entries L inputs upload [] s = ([], [], s)"
| "entries L inputs upload (name # names) s =
     (case entry L inputs upload name s of
        (out, calls, s') \<Rightarrow>
          (case entries L inputs upload names s' of
             (outs, calls', s'') \<Rightarrow>
               ((name, out) # outs, map (Pair name) calls @ calls', s'')))"

fun firstError :: "(jsstring \<times> started) list \<Rightarrow> error option" where
  "firstError [] = None"
| "firstError ((name, Rejects e) # outs) = Some e"
| "firstError ((name, Awaits h (Inl e)) # outs) = Some e"
| "firstError ((name, out) # outs) = firstError outs"

text \<open>
  After the \<open>await\<close>. The callbacks whose upload resolved continue in the order in which
  the promises settle (in key order when two settle together), each with its name, the
  hash it computed and the object it was given.
\<close>

fun awaiting :: "(jsstring \<times> started) list \<Rightarrow> (jsstring \<times> jsstring \<times> uploaded) list" where
  "awaiting [] = []"
| "awaiting ((name, Awaits h (Inr u)) # outs) = (name, h, u) # awaiting outs"
| "awaiting ((name, out) # outs) = awaiting outs"

definition continuations ::
  "(jsstring \<times> started) list \<Rightarrow> (jsstring \<times> jsstring \<times> uploaded) list" where
  "continuations outs = sort_key (\<lambda>(name, h, u). settles u) (awaiting outs)"

text \<open>
  The objects that upload returned, by identity. The fields of an object are those the
  call gave; when two calls gave the same object, those of the later call. Then each
  continuation writes \<open>remoteRef.hash = hash\<close> into the object it was given, in place:
  an object given to two callbacks keeps the hash written last.
\<close>

type_synonym heap = "nat \<rightharpoonup> DataRef"

definition given :: "jsstring \<times> jsstring \<times> uploaded \<Rightarrow> heap \<Rightarrow> heap" where
  "given c objs = (case c of (name, h, u) \<Rightarrow> objs(ident u \<mapsto> body u))"

definition writeHash :: "jsstring \<times> jsstring \<times> uploaded \<Rightarrow> heap \<Rightarrow> heap" where
  "writeHash c objs =
     (case c of (name, h, u) \<Rightarrow>
        (case objs (ident u) of
           None \<Rightarrow> objs
         | Some remoteRef \<Rightarrow> objs(ident u \<mapsto> remoteRef\<lparr>hash := Some h\<rparr>)))"

definition settle :: "(jsstring \<times> started) list \<Rightarrow> heap" where
  "settle outs = fold writeHash (continuations outs) (fold given (awaiting outs) Map.empty)"

text \<open>
  The object \<open>result\<close>. A property refers to an entry of the input or to an object that
  upload returned. \<open>result\<close> starts as \<open>{}\<close>, so the assignment \<open>result[name] = x\<close> adds
  or replaces an own property, except for the name \<open>__proto__\<close>: that assignment runs the
  setter inherited from \<open>Object.prototype\<close>, which makes \<open>x\<close> the prototype of \<open>result\<close>
  and adds no own property.
\<close>

datatype slot = Kept DataRef | Uploaded nat

record resultObj =
  own :: "jsstring \<rightharpoonup> slot"
  proto :: "slot option"

definition assign :: "jsstring \<Rightarrow> slot \<Rightarrow> resultObj \<Rightarrow> resultObj" where
  \<comment> \<open>\<open>result[name] = x\<close>\<close>
  "assign name x result =
     (if name = units ''__proto__'' then result\<lparr>proto := Some x\<rparr>
      else result\<lparr>own := (own result)(name \<mapsto> x)\<rparr>)"

fun keeping :: "(jsstring \<times> started) list \<Rightarrow> resultObj \<Rightarrow> resultObj" where
  \<comment> \<open>the assignments \<open>result[name] = inputs[name]\<close>, made before any \<open>await\<close> returns\<close>
  "keeping [] result = result"
| "keeping ((name, Keeps ref) # outs) result = keeping outs (assign name (Kept ref) result)"
| "keeping ((name, out) # outs) result = keeping outs result"

fun installing :: "(jsstring \<times> jsstring \<times> uploaded) list \<Rightarrow> resultObj \<Rightarrow> resultObj" where
  \<comment> \<open>the assignments \<open>result[name] = remoteRef\<close>, made by the continuations\<close>
  "installing [] result = result"
| "installing ((name, h, u) # cs) result = installing cs (assign name (Uploaded (ident u)) result)"

definition assemble :: "(jsstring \<times> started) list \<Rightarrow> resultObj" where
  "assemble outs = installing (continuations outs) (keeping outs \<lparr>own = Map.empty, proto = None\<rparr>)"

text \<open>
  Reading \<open>result[name]\<close>: an own property, or for \<open>__proto__\<close> the prototype that the
  setter installed. (A name that is neither reads through the prototype chain and gives
  no \<open>DataRef\<close>.) The mapping that the caller receives is given by what these reads give
  once every callback is done; the own keys of \<open>result\<close> are \<open>dom (own result)\<close>.
\<close>

definition refAt :: "resultObj \<Rightarrow> jsstring \<Rightarrow> slot option" where
  "refAt result name = (if name = units ''__proto__'' then proto result else own result name)"

definition deref :: "heap \<Rightarrow> slot \<Rightarrow> DataRef option" where
  "deref objs x = (case x of Kept ref \<Rightarrow> Some ref | Uploaded i \<Rightarrow> objs i)"

definition contents :: "heap \<Rightarrow> resultObj \<Rightarrow> (jsstring \<rightharpoonup> DataRef)" where
  "contents objs result name =
     (case refAt result name of None \<Rightarrow> None | Some x \<Rightarrow> deref objs x)"

text \<open>
  \<open>Promise.all\<close> rejects when a callback rejects, and \<open>result\<close> is returned only after
  it resolves. Which of several errors is reported depends on timing; the model reports
  the first in key order. A run gives what the call settles with, the upload calls made,
  the object \<open>result\<close>, and the state of the remote side.
\<close>

definition returned :: "'a \<times> 'b \<times> 'c \<Rightarrow> 'a" where
  "returned run = fst run"

definition uploads :: "'a \<times> 'b \<times> 'c \<Rightarrow> 'b" where
  "uploads run = fst (snd run)"

definition resultObject :: "'a \<times> 'b \<times> 'c \<times> 'd \<Rightarrow> 'c" where
  "resultObject run = fst (snd (snd run))"

definition copyLargeBlobsToRemote ::
  "lib \<Rightarrow> InputsRefs option \<Rightarrow> 's UploadFunc \<Rightarrow> 's \<Rightarrow>
     (error + (jsstring \<rightharpoonup> DataRef) option) \<times> (jsstring \<times> (bytes, uploaded) call) list
       \<times> resultObj \<times> 's" where
  "copyLargeBlobsToRemote L inputs upload s =
     (case inputs of
        None \<Rightarrow> (Inr None, [], \<lparr>own = Map.empty, proto = None\<rparr>, s)
      | Some inp \<Rightarrow>
          (case entries L inp upload (map fst inp) s of
             (outs, calls, s') \<Rightarrow>
               (case firstError outs of
                  Some e \<Rightarrow> (Inl e, calls, assemble outs, s')
                | None \<Rightarrow>
                    (Inr (Some (contents (settle outs) (assemble outs))), calls, assemble outs, s'))))"

text \<open>
  The upload calls of a run that resolved, in the order in which they were made.
\<close>

fun resolved :: "(jsstring \<times> (bytes, uploaded) call) list \<Rightarrow> uploaded list" where
  "resolved [] = []"
| "resolved ((name, buf, Inr u) # calls) = u # resolved calls"
| "resolved ((name, buf, Inl e) # calls) = resolved calls"

text \<open>
  The options of \<open>base64ToDataRef\<close>; \<open>None\<close> is an omitted option. Its upload function
  resolves to one object, which the function writes to and returns: the fields the
  caller reads are those of that object with the hash written.
\<close>

record 's Options =
  upload :: "jsstring \<Rightarrow> 's \<Rightarrow> (error + DataRef) \<times> 's"
  ignoreHash :: "bool option"
  maxLengthUnmodified :: "int option"

definition base64ToDataRef ::
  "lib \<Rightarrow> jsstring \<Rightarrow> 's Options \<Rightarrow> 's \<Rightarrow>
     (error + DataRef) \<times> (jsstring, DataRef) call list \<times> 's" where
  "base64ToDataRef L v options s =
     (let ignore = (case ignoreHash options of None \<Rightarrow> False | Some b \<Rightarrow> b);
          maxLength = (case maxLengthUnmodified options of None \<Rightarrow> 200 | Some m \<Rightarrow> m)
      in
      if int (length v) < maxLength then
        (Inr \<lparr>value = JStr v,
              hash = (if ignore then None else Some (sha1 L (HString v))),
              type = Some base64\<rparr>, [], s)
      else
        (case upload options v s of
           (Inl e, s') \<Rightarrow> (Inl e, [(v, Inl e)], s')
         | (Inr remoteRef, s') \<Rightarrow>
             (Inr (if \<not> ignore then remoteRef\<lparr>hash := Some (sha1 L (HString v))\<rparr> else remoteRef),
              [(v, Inr remoteRef)], s')))"

definition fetchBlobFromUrl :: "lib \<Rightarrow> jsvalue \<Rightarrow> error + bytes" where
  "fetchBlobFromUrl L u = fetch L u"

definition newBlob :: "error + bytes \<Rightarrow> error + Blob" where
  "newBlob r = (case r of Inl e \<Rightarrow> Inl e | Inr buffer \<Rightarrow> Inr (Blob buffer))"

definition dataRefToBlob :: "lib \<Rightarrow> DataRef \<Rightarrow> error + Blob" where
  "dataRefToBlob L dataRef =
     (case effectiveType dataRef of
        DataRefType.hash \<Rightarrow> Inl (Thrown (units ''Cannot crate blob from type=hash''))
      | json \<Rightarrow> newBlob (utf8ToBuffer L (JStr (stringify L (value dataRef))))
      | utf8 \<Rightarrow> newBlob (utf8ToBuffer L (value dataRef))
      | url \<Rightarrow> newBlob (fetchBlobFromUrl L (value dataRef))
      | _ \<Rightarrow> newBlob (base64ToBuffer L (value dataRef)))"

section \<open>A sample environment\<close>

text \<open>
  The theorems below hold for every \<open>lib\<close> and every upload function. Their instances
  are stated for this environment: UTF-8 encoding of a string of code units (a lone
  surrogate is an error, as in \<open>encodeURIComponent\<close>), base64 decoding as \<open>atob\<close> does
  it (white space dropped, padding optional), a serialiser for the values of \<open>jsvalue\<close>,
  a digest that keeps its argument apart by kind, and a remote store of bounded capacity.
  The sample codecs are defined on strings and reject any other value.
\<close>

definition isHigh :: "16 word \<Rightarrow> bool" where
  "isHigh c = (0xD800 \<le> unat c \<and> unat c < 0xDC00)"

definition isLow :: "16 word \<Rightarrow> bool" where
  "isLow c = (0xDC00 \<le> unat c \<and> unat c < 0xE000)"

definition utf8Unit :: "nat \<Rightarrow> bytes" where
  "utf8Unit n =
     (if n < 0x80 then [of_nat n]
      else if n < 0x800 then [of_nat (0xC0 + n div 64), of_nat (0x80 + n mod 64)]
      else if n < 0x10000 then
        [of_nat (0xE0 + n div 4096), of_nat (0x80 + n div 64 mod 64), of_nat (0x80 + n mod 64)]
      else
        [of_nat (0xF0 + n div 262144), of_nat (0x80 + n div 4096 mod 64),
         of_nat (0x80 + n div 64 mod 64), of_nat (0x80 + n mod 64)])"

fun utf8Units :: "jsstring \<Rightarrow> bytes option" where
  "utf8Units [] = Some []"
| "utf8Units [c] = (if isHigh c \<or> isLow c then None else Some (utf8Unit (unat c)))"
| "utf8Units (c # d # cs) =
     (if isHigh c then
        (if isLow d then
           map_option ((@) (utf8Unit (0x10000 + (unat c - 0xD800) * 0x400 + (unat d - 0xDC00))))
             (utf8Units cs)
         else None)
      else if isLow c then None
      else map_option ((@) (utf8Unit (unat c))) (utf8Units (d # cs)))"

definition sampleUtf8ToBuffer :: "jsvalue \<Rightarrow> error + bytes" where
  "sampleUtf8ToBuffer v =
     (case v of
        JStr s \<Rightarrow> (case utf8Units s of None \<Rightarrow> Inl (Rejected (units ''URI malformed'')) | Some b \<Rightarrow> Inr b)
      | _ \<Rightarrow> Inl (Rejected (units ''not a string'')))"

definition sextet :: "16 word \<Rightarrow> nat option" where
  "sextet c =
     (let n = unat c in
      if 65 \<le> n \<and> n \<le> 90 then Some (n - 65)
      else if 97 \<le> n \<and> n \<le> 122 then Some (n - 71)
      else if 48 \<le> n \<and> n \<le> 57 then Some (n + 4)
      else if n = 43 then Some 62
      else if n = 47 then Some 63
      else None)"

fun sextets :: "jsstring \<Rightarrow> nat list option" where
  "sextets [] = Some []"
| "sextets (c # cs) =
     (case sextet c of
        None \<Rightarrow> None
      | Some n \<Rightarrow> map_option ((#) n) (sextets cs))"

fun octets :: "nat list \<Rightarrow> nat list" where
  "octets (a # b # c # d # r) =
     [a * 4 + b div 16, b mod 16 * 16 + c div 4, c mod 4 * 64 + d] @ octets r"
| "octets [a, b, c] = [a * 4 + b div 16, b mod 16 * 16 + c div 4]"
| "octets [a, b] = [a * 4 + b div 16]"
| "octets r = []"

definition isSpace :: "16 word \<Rightarrow> bool" where
  "isSpace c = (c = 0x09 \<or> c = 0x0A \<or> c = 0x0C \<or> c = 0x0D \<or> c = 0x20)"

definition unpad :: "jsstring \<Rightarrow> jsstring" where
  "unpad s =
     (if length s mod 4 = 0 \<and> s \<noteq> [] \<and> last s = 0x3D then
        (let t = butlast s in if t \<noteq> [] \<and> last t = 0x3D then butlast t else t)
      else s)"

definition atob :: "jsstring \<Rightarrow> bytes option" where
  "atob s =
     (let d = unpad (filter (\<lambda>c. \<not> isSpace c) s) in
      if length d mod 4 = 1 then None
      else map_option (\<lambda>ns. map of_nat (octets ns)) (sextets d))"

definition sampleBase64ToBuffer :: "jsvalue \<Rightarrow> error + bytes" where
  "sampleBase64ToBuffer v =
     (case v of
        JStr s \<Rightarrow> (case atob s of None \<Rightarrow> Inl (Rejected (units ''InvalidCharacterError'')) | Some b \<Rightarrow> Inr b)
      | _ \<Rightarrow> Inl (Rejected (units ''not a string'')))"

text \<open>
  The encoder that goes with \<open>atob\<close>, from bytes to base64 text with padding
  (\<open>Unibabel.bufferToBase64\<close>).
\<close>

fun toSextets :: "nat list \<Rightarrow> nat list" where
  "toSextets (x # y # z # r) =
     [x div 4, x mod 4 * 16 + y div 16, y mod 16 * 4 + z div 64, z mod 64] @ toSextets r"
| "toSextets [x, y] = [x div 4, x mod 4 * 16 + y div 16, y mod 16 * 4]"
| "toSextets [x] = [x div 4, x mod 4 * 16]"
| "toSextets [] = []"

definition digit :: "nat \<Rightarrow> 16 word" where
  "digit n =
     (if n < 26 then of_nat (n + 65)
      else if n < 52 then of_nat (n + 71)
      else if n < 62 then of_nat (n - 4)
      else if n = 62 then 43
      else 47)"

definition btoa :: "bytes \<Rightarrow> jsstring" where
  "btoa b =
     map digit (toSextets (map unat b)) @ replicate ((3 - length b mod 3) mod 3) 0x3D"

fun hexDigit :: "nat \<Rightarrow> 16 word" where
  "hexDigit n = (if n < 10 then of_nat (48 + n) else of_nat (87 + n))"

fun decimal :: "nat \<Rightarrow> jsstring" where
  "decimal n = (if n < 10 then [of_nat (48 + n)] else decimal (n div 10) @ [of_nat (48 + n mod 10)])"

fun quoteUnits :: "jsstring \<Rightarrow> jsstring" where
  "quoteUnits [] = []"
| "quoteUnits (c # cs) =
     (if c = 0x22 then [0x5C, 0x22]
      else if c = 0x5C then [0x5C, 0x5C]
      else if c = 0x08 then [0x5C, 0x62]
      else if c = 0x09 then [0x5C, 0x74]
      else if c = 0x0A then [0x5C, 0x6E]
      else if c = 0x0C then [0x5C, 0x66]
      else if c = 0x0D then [0x5C, 0x72]
      else if c < 0x20 then [0x5C, 0x75, 0x30, 0x30, hexDigit (unat c div 16), hexDigit (unat c mod 16)]
      else [c]) @ quoteUnits cs"

definition quote :: "jsstring \<Rightarrow> jsstring" where
  "quote s = [0x22] @ quoteUnits s @ [0x22]"

fun join :: "jsstring list \<Rightarrow> jsstring" where
  "join [] = []"
| "join [x] = x"
| "join (x # xs) = x @ [0x2C] @ join xs"

fun sampleStringify :: "jsvalue \<Rightarrow> jsstring" where
  "sampleStringify JNull = units ''null''"
| "sampleStringify (JBool b) = (if b then units ''true'' else units ''false'')"
| "sampleStringify (JNum n) = (if n < 0 then [0x2D] @ decimal (nat (- n)) else decimal (nat n))"
| "sampleStringify (JStr s) = quote s"
| "sampleStringify (JArr xs) = [0x5B] @ join (map sampleStringify xs) @ [0x5D]"
| "sampleStringify (JObj kvs) =
     [0x7B] @ join (map (\<lambda>(k, v). quote k @ [0x3A] @ sampleStringify v) kvs) @ [0x7D]"

fun sampleDigest :: "hashed \<Rightarrow> jsstring" where
  "sampleDigest (HString s) = units ''string:'' @ s"
| "sampleDigest (HBytes b) = units ''bytes:'' @ map (\<lambda>x. of_nat (unat x)) b"

definition sampleLib :: lib where
  "sampleLib =
     \<lparr>stringify = sampleStringify,
      utf8ToBuffer = sampleUtf8ToBuffer,
      base64ToBuffer = sampleBase64ToBuffer,
      sha1 = sampleDigest,
      fetch = (\<lambda>u. Inl (Rejected (units ''offline''))),
      toNumber = (\<lambda>v. None)\<rparr>"

text \<open>
  The remote store holds the blobs uploaded so far. An upload into a store with room
  returns a \<open>hash\<close>-typed reference that carries a hash of the remote side's own; an
  upload into a full store is rejected. \<open>sampleUpload\<close> is the upload function of
  \<open>base64ToDataRef\<close>. \<open>sampleStore\<close> is that of \<open>copyLargeBlobsToRemote\<close>: every call gives
  a new object, and the promises settle in the order of the calls. \<open>sharedStore\<close> gives
  one and the same object on every call.
\<close>

definition stored :: "nat \<Rightarrow> DataRef" where
  "stored n =
     \<lparr>value = JStr (units ''blob-'' @ decimal n),
      hash = Some (units ''remote''),
      type = Some DataRefType.hash\<rparr>"

definition sampleUpload :: "nat \<Rightarrow> 'a \<Rightarrow> 'a list \<Rightarrow> (error + DataRef) \<times> 'a list" where
  "sampleUpload capacity blob store =
     (if length store < capacity then (Inr (stored (length store)), store @ [blob])
      else (Inl (Rejected (units ''store full'')), store))"

definition sampleStore :: "nat \<Rightarrow> bytes \<Rightarrow> bytes list \<Rightarrow> (error + uploaded) \<times> bytes list" where
  "sampleStore capacity blob store =
     (if length store < capacity then
        (Inr \<lparr>ident = length store, body = stored (length store), settles = length store\<rparr>,
         store @ [blob])
      else (Inl (Rejected (units ''store full'')), store))"

definition sharedStore :: "bytes \<Rightarrow> bytes list \<Rightarrow> (error + uploaded) \<times> bytes list" where
  "sharedStore blob store =
     (Inr \<lparr>ident = 0, body = stored 0, settles = length store\<rparr>, store @ [blob])"

text \<open>
  Sample inputs: a one-character text, a text of 201 copies of a character, and the
  mapping \<open>{a: {value: "x", type: utf8}, b: {value: <201 characters>, type: utf8}}\<close>.
\<close>

definition smallRef :: DataRef where
  "smallRef = \<lparr>value = JStr (units ''x''), hash = None, type = Some utf8\<rparr>"

definition bigRef :: "16 word \<Rightarrow> DataRef" where
  "bigRef c = \<lparr>value = JStr (replicate 201 c), hash = None, type = Some utf8\<rparr>"

definition scenario :: InputsRefs where
  "scenario = [(units ''a'', smallRef), (units ''b'', bigRef 0x78)]"

text \<open>
  More sample inputs: a third entry that no longer fits a store of capacity one; two
  long texts for a store that shares its object; a \<open>hash\<close>-typed handle with a long value;
  a text of exactly 200 characters; a base64 entry of 201 characters, which no decoder
  of base64 accepts; a short URL, a long \<open>https\<close> URL, and a long relative URL made of
  characters of the base64 alphabet only; and an object with the own key \<open>__proto__\<close>, as
  \<open>JSON.parse\<close> gives for the text \<open>{"__proto__": {"value": "x", "type": "utf8"}}\<close>.
\<close>

definition overfull :: InputsRefs where
  "overfull = scenario @ [(units ''c'', bigRef 0x79)]"

definition twoBig :: InputsRefs where
  "twoBig = [(units ''b'', bigRef 0x78), (units ''c'', bigRef 0x79)]"

definition handle :: DataRef where
  "handle = \<lparr>value = JStr (replicate 300 0x61), hash = None, type = Some DataRefType.hash\<rparr>"

definition exact :: DataRef where
  "exact = \<lparr>value = JStr (replicate 200 0x78), hash = None, type = Some utf8\<rparr>"

definition undecodable :: DataRef where
  "undecodable = \<lparr>value = JStr (replicate 201 0x41), hash = None, type = Some base64\<rparr>"






section \<open>The callbacks and the assembled result\<close>

lemma entries_keys: "map fst (fst (entries L inp up names s)) = names"
proof (induction names arbitrary: s)
  case Nil
  then show ?case by simp
next
  case (Cons a names)
  obtain o1 c1 s1 where e: "entry L inp up a s = (o1, c1, s1)" by (cases "entry L inp up a s")
  obtain os cs s2 where r: "entries L inp up names s1 = (os, cs, s2)" by (cases "entries L inp up names s1")
  from Cons.IH [of s1] r have "map fst os = names" by simp
  with e r show ?case by simp
qed

lemma entries_outs:
  "entries L inp up names s = (outs, calls, s') \<Longrightarrow> (n, out) \<in> set outs \<Longrightarrow>
     n \<in> set names \<and>
     (\<exists>s0 cs s1. entry L inp up n s0 = (out, cs, s1) \<and> Pair n ` set cs \<subseteq> set calls)"
proof (induction names arbitrary: s outs calls s')
  case Nil
  then show ?case by simp
next
  case (Cons a names)
  obtain o1 c1 s1 where e: "entry L inp up a s = (o1, c1, s1)" by (cases "entry L inp up a s")
  obtain os cs s2 where r: "entries L inp up names s1 = (os, cs, s2)" by (cases "entries L inp up names s1")
  from Cons.prems(1) e r have outs: "outs = (a, o1) # os" and calls: "calls = map (Pair a) c1 @ cs"
    by simp_all
  from Cons.prems(2) outs have "(n, out) = (a, o1) \<or> (n, out) \<in> set os" by simp
  then show ?case
  proof
    assume "(n, out) = (a, o1)"
    then have "n = a" "out = o1" by simp_all
    moreover have "Pair a ` set c1 \<subseteq> set calls" using calls by auto
    ultimately have "n \<in> set (a # names)" "entry L inp up n s = (out, c1, s1)"
      "Pair n ` set c1 \<subseteq> set calls" using e by simp_all
    then show ?thesis by blast
  next
    assume "(n, out) \<in> set os"
    from Cons.IH [OF r this] obtain s0 cs0 s1' where
      "n \<in> set names" "entry L inp up n s0 = (out, cs0, s1')" "Pair n ` set cs0 \<subseteq> set cs" by blast
    moreover have "set cs \<subseteq> set calls" using calls by auto
    ultimately have "n \<in> set (a # names)" "entry L inp up n s0 = (out, cs0, s1')"
      "Pair n ` set cs0 \<subseteq> set calls" by auto
    then show ?thesis by blast
  qed
qed

lemma entries_calls:
  "entries L inp up names s = (outs, calls, s') \<Longrightarrow> (n, c) \<in> set calls \<Longrightarrow>
     n \<in> set names \<and>
     (\<exists>s0 out cs s1. entry L inp up n s0 = (out, cs, s1) \<and> c \<in> set cs \<and> (n, out) \<in> set outs)"
proof (induction names arbitrary: s outs calls s')
  case Nil
  then show ?case by simp
next
  case (Cons a names)
  obtain o1 c1 s1 where e: "entry L inp up a s = (o1, c1, s1)" by (cases "entry L inp up a s")
  obtain os cs s2 where r: "entries L inp up names s1 = (os, cs, s2)" by (cases "entries L inp up names s1")
  from Cons.prems(1) e r have outs: "outs = (a, o1) # os" and calls: "calls = map (Pair a) c1 @ cs"
    by simp_all
  from Cons.prems(2) calls have "(n, c) \<in> Pair a ` set c1 \<or> (n, c) \<in> set cs" by auto
  then show ?case
  proof
    assume "(n, c) \<in> Pair a ` set c1"
    then have "n = a" "c \<in> set c1" by auto
    moreover have "(a, o1) \<in> set outs" using outs by simp
    ultimately have "n \<in> set (a # names)" "entry L inp up n s = (o1, c1, s1)"
      "c \<in> set c1" "(n, o1) \<in> set outs" using e by simp_all
    then show ?thesis by blast
  next
    assume "(n, c) \<in> set cs"
    from Cons.IH [OF r this] obtain s0 out cs0 s1' where
      "n \<in> set names" "entry L inp up n s0 = (out, cs0, s1')" "c \<in> set cs0" "(n, out) \<in> set os" by blast
    moreover have "set os \<subseteq> set outs" using outs by auto
    ultimately have "n \<in> set (a # names)" "entry L inp up n s0 = (out, cs0, s1')"
      "c \<in> set cs0" "(n, out) \<in> set outs" by auto
    then show ?thesis by blast
  qed
qed

lemma entries_calls_of:
  "filter (\<lambda>c. fst c = n) (fst (snd (entries L inp up names s))) = cs \<Longrightarrow>
   distinct names \<Longrightarrow> n \<in> set names \<Longrightarrow>
     \<exists>s0. cs = map (Pair n) (fst (snd (entry L inp up n s0)))"
proof (induction names arbitrary: s cs)
  case Nil
  then show ?case by simp
next
  case (Cons a names)
  obtain o1 c1 s1 where e: "entry L inp up a s = (o1, c1, s1)" by (cases "entry L inp up a s")
  obtain os cs' s2 where r: "entries L inp up names s1 = (os, cs', s2)" by (cases "entries L inp up names s1")
  have split: "cs = filter (\<lambda>c. fst c = n) (map (Pair a) c1) @ filter (\<lambda>c. fst c = n) cs'"
    using Cons.prems(1) e r by simp
  show ?case
  proof (cases "n = a")
    case True
    then have "n \<notin> set names" using Cons.prems(2) by simp
    have "\<And>c. c \<in> set cs' \<Longrightarrow> fst c \<noteq> n"
    proof
      fix c assume "c \<in> set cs'" "fst c = n"
      then have "(n, snd c) \<in> set cs'" by (metis prod.collapse)
      from entries_calls [OF r this] \<open>n \<notin> set names\<close> show False by simp
    qed
    then have "filter (\<lambda>c. fst c = n) cs' = []"
      by (simp add: filter_empty_conv)
    moreover have "filter (\<lambda>c. fst c = n) (map (Pair a) c1) = map (Pair a) c1"
      using True by (simp add: filter_map comp_def)
    ultimately have "cs = map (Pair n) (fst (snd (entry L inp up n s)))"
      using split e True by simp
    then show ?thesis by blast
  next
    case False
    then have "filter (\<lambda>c. fst c = n) (map (Pair a) c1) = []"
      by (auto simp: filter_empty_conv)
    with split r have "filter (\<lambda>c. fst c = n) (fst (snd (entries L inp up names s1))) = cs" by simp
    moreover have "distinct names" "n \<in> set names" using Cons.prems False by auto
    ultimately show ?thesis using Cons.IH by blast
  qed
qed

lemma firstError_Some:
  "(n, Rejects e) \<in> set outs \<or> (n, Awaits h (Inl e)) \<in> set outs \<Longrightarrow> \<exists>e'. firstError outs = Some e'"
  by (induction outs rule: firstError.induct) auto

lemma firstError_None:
  "firstError outs = None \<Longrightarrow> (n, out) \<in> set outs \<Longrightarrow>
     (\<exists>ref. out = Keeps ref) \<or> (\<exists>h u. out = Awaits h (Inr u))"
  by (induction outs rule: firstError.induct) auto

lemma entry_kept:
  "map_of inp n = Some ref \<Longrightarrow> uint8ArrayIfBig L ref = Inr None \<Longrightarrow>
     entry L inp up n s0 = (Keeps ref, [], s0)"
  by (simp add: entry_def)

lemma entry_failed:
  "map_of inp n = Some ref \<Longrightarrow> uint8ArrayIfBig L ref = Inl e \<Longrightarrow>
     entry L inp up n s0 = (Rejects e, [], s0)"
  by (simp add: entry_def)

lemma entry_big:
  "map_of inp n = Some ref \<Longrightarrow> uint8ArrayIfBig L ref = Inr (Some buf) \<Longrightarrow>
     entry L inp up n s0 =
       (Awaits (sha1 L (HBytes buf)) (fst (up buf s0)), [(buf, fst (up buf s0))], snd (up buf s0))"
  by (cases "up buf s0") (simp add: entry_def)

lemma entry_shape:
  "entry L inp up n s0 = (out, cs, s1) \<Longrightarrow>
     (cs = [] \<and> ((\<exists>e. out = Rejects e) \<or> (\<exists>ref. out = Keeps ref)))
     \<or> (\<exists>h buf r. out = Awaits h r \<and> cs = [(buf, r)])"
  by (auto simp: entry_def Let_def split: option.splits sum.splits prod.splits)

lemma copy_returned:
  "returned (copyLargeBlobsToRemote L (Some inp) up s) =
     (case firstError (fst (entries L inp up (map fst inp) s)) of
        Some e \<Rightarrow> Inl e
      | None \<Rightarrow>
          Inr (Some (contents (settle (fst (entries L inp up (map fst inp) s)))
                       (assemble (fst (entries L inp up (map fst inp) s))))))"
  by (simp add: returned_def copyLargeBlobsToRemote_def split: prod.splits option.splits)

lemma copy_uploads:
  "uploads (copyLargeBlobsToRemote L (Some inp) up s) = fst (snd (entries L inp up (map fst inp) s))"
  by (simp add: uploads_def copyLargeBlobsToRemote_def split: prod.splits option.splits)

lemma copy_result:
  "resultObject (copyLargeBlobsToRemote L (Some inp) up s) = assemble (fst (entries L inp up (map fst inp) s))"
  by (simp add: resultObject_def copyLargeBlobsToRemote_def split: prod.splits option.splits)

lemma refAt_assign: "refAt (assign n x r) name = (if name = n then Some x else refAt r name)"
  by (simp add: refAt_def assign_def)


lemma refAt_keeping_other:
  "\<forall>ref. (name, Keeps ref) \<notin> set outs \<Longrightarrow> refAt (keeping outs r) name = refAt r name"
  by (induction outs r rule: keeping.induct) (auto simp: refAt_assign)

lemma refAt_keeping:
  "\<forall>out. (name, out) \<in> set outs \<longrightarrow> out = Keeps ref \<Longrightarrow> name \<in> fst ` set outs \<Longrightarrow>
     refAt (keeping outs r) name = Some (Kept ref)"
proof (induction outs r rule: keeping.induct)
  case (1 result)
  then show ?case by simp
next
  case (2 n ref' outs result)
  show ?case
  proof (cases "name \<in> fst ` set outs")
    case True
    with 2 show ?thesis by simp
  next
    case False
    with "2.prems" have "n = name" "ref' = ref" by auto
    moreover from False have "\<forall>ref. (name, Keeps ref) \<notin> set outs" by force
    ultimately show ?thesis by (simp add: refAt_keeping_other refAt_assign)
  qed
qed auto


lemma refAt_installing_other:
  "name \<notin> fst ` set cs \<Longrightarrow> refAt (installing cs r) name = refAt r name"
  by (induction cs r rule: installing.induct) (auto simp: refAt_assign)

lemma refAt_installing:
  "name \<in> fst ` set cs \<Longrightarrow>
     \<exists>h u. (name, h, u) \<in> set cs \<and> refAt (installing cs r) name = Some (Uploaded (ident u))"
proof (induction cs r rule: installing.induct)
  case (1 result)
  then show ?case by simp
next
  case (2 n h u cs result)
  show ?case
  proof (cases "name \<in> fst ` set cs")
    case True
    from "2.IH" [OF True] show ?thesis by auto
  next
    case False
    with "2.prems" have "n = name" by auto
    with False show ?thesis by (auto simp: refAt_installing_other refAt_assign)
  qed
qed


lemma set_awaiting: "((n, h, u) \<in> set (awaiting outs)) = ((n, Awaits h (Inr u)) \<in> set outs)"
  by (induction outs rule: awaiting.induct) auto

lemma set_continuations: "set (continuations outs) = set (awaiting outs)"
  by (simp add: continuations_def)

section \<open>The objects that upload returned\<close>

lemma awaiting_append: "awaiting (xs @ ys) = awaiting xs @ awaiting ys"
  by (induction xs rule: awaiting.induct) simp_all

lemma resolved_append: "resolved (xs @ ys) = resolved xs @ resolved ys"
  by (induction xs rule: resolved.induct) simp_all

lemma awaiting_resolved:
  "entries L inp up names s = (outs, calls, s') \<Longrightarrow>
     map (\<lambda>(n, h, u). u) (awaiting outs) = resolved calls"
proof (induction names arbitrary: s outs calls s')
  case Nil
  then show ?case by simp
next
  case (Cons a names)
  obtain o1 c1 s1 where e: "entry L inp up a s = (o1, c1, s1)" by (cases "entry L inp up a s")
  obtain os cs s2 where r: "entries L inp up names s1 = (os, cs, s2)" by (cases "entries L inp up names s1")
  from Cons.prems e r have outs: "outs = (a, o1) # os" and calls: "calls = map (Pair a) c1 @ cs"
    by simp_all
  have "map (\<lambda>(n, h, u). u) (awaiting [(a, o1)]) = resolved (map (Pair a) c1)"
  proof -
    from entry_shape [OF e] consider "c1 = []" "\<exists>e. o1 = Rejects e"
      | "c1 = []" "\<exists>ref. o1 = Keeps ref"
      | h buf r where "o1 = Awaits h r" "c1 = [(buf, r)]" by blast
    then show ?thesis
    proof cases
      case 1
      then show ?thesis by auto
    next
      case 2
      then show ?thesis by auto
    next
      case 3
      then show ?thesis by (cases r) simp_all
    qed
  qed
  moreover have "awaiting outs = awaiting [(a, o1)] @ awaiting os"
    using outs awaiting_append [of "[(a, o1)]" os] by simp
  ultimately show ?case using Cons.IH [OF r] calls by (simp add: resolved_append)
qed

lemma distinct_map_insort:
  "distinct (map f (insort_key g x xs)) = (f x \<notin> f ` set xs \<and> distinct (map f xs))"
  by (induction xs) (auto simp: set_insort_key)

lemma distinct_map_sort: "distinct (map f (sort_key g xs)) = distinct (map f xs)"
  by (induction xs) (simp_all add: distinct_map_insort)

lemma fold_given_other:
  "i \<notin> (\<lambda>(n, h, u). ident u) ` set xs \<Longrightarrow> fold given xs objs i = objs i"
  by (induction xs arbitrary: objs) (auto simp: given_def)

lemma fold_given:
  "distinct (map (\<lambda>(n, h, u). ident u) xs) \<Longrightarrow> (n, h, u) \<in> set xs \<Longrightarrow>
     fold given xs objs (ident u) = Some (body u)"
proof (induction xs arbitrary: objs)
  case Nil
  then show ?case by simp
next
  case (Cons x xs)
  show ?case
  proof (cases "x = (n, h, u)")
    case True
    with Cons.prems(1) have "ident u \<notin> (\<lambda>(n, h, u). ident u) ` set xs" by simp
    then have "fold given xs (given x objs) (ident u) = given x objs (ident u)"
      by (rule fold_given_other)
    moreover have "given x objs (ident u) = Some (body u)"
      using True by (simp add: given_def)
    ultimately show ?thesis by simp
  next
    case False
    with Cons show ?thesis by simp
  qed
qed

lemma fold_writeHash_other:
  "i \<notin> (\<lambda>(n, h, u). ident u) ` set xs \<Longrightarrow> fold writeHash xs objs i = objs i"
  by (induction xs arbitrary: objs) (auto simp: writeHash_def split: option.splits)

lemma fold_writeHash:
  "distinct (map (\<lambda>(n, h, u). ident u) xs) \<Longrightarrow> (n, h, u) \<in> set xs \<Longrightarrow>
   objs (ident u) = Some d \<Longrightarrow>
     fold writeHash xs objs (ident u) = Some (d\<lparr>hash := Some h\<rparr>)"
proof (induction xs arbitrary: objs)
  case Nil
  then show ?case by simp
next
  case (Cons x xs)
  show ?case
  proof (cases "x = (n, h, u)")
    case True
    with Cons.prems(1) have "ident u \<notin> (\<lambda>(n, h, u). ident u) ` set xs" by simp
    then have "fold writeHash xs (writeHash x objs) (ident u) = writeHash x objs (ident u)"
      by (rule fold_writeHash_other)
    moreover have "writeHash x objs (ident u) = Some (d\<lparr>hash := Some h\<rparr>)"
      using True Cons.prems(3) by (simp add: writeHash_def)
    ultimately show ?thesis by simp
  next
    case False
    with Cons.prems have in_xs: "(n, h, u) \<in> set xs" and d: "distinct (map (\<lambda>(n, h, u). ident u) xs)"
      and ne: "(\<lambda>(n, h, u). ident u) x \<noteq> ident u"
      by (auto simp: image_iff)
    from ne Cons.prems(3) have "writeHash x objs (ident u) = Some d"
      by (cases x) (auto simp: writeHash_def split: option.splits)
    from Cons.IH [of "writeHash x objs", OF d in_xs this] show ?thesis by simp
  qed
qed

lemma settle_distinct:
  assumes "distinct (map (\<lambda>(n, h, u). ident u) (awaiting outs))"
    and "(n, h, u) \<in> set (awaiting outs)"
  shows "settle outs (ident u) = Some ((body u)\<lparr>hash := Some h\<rparr>)"
proof -
  have 1: "fold given (awaiting outs) Map.empty (ident u) = Some (body u)"
    by (rule fold_given [OF assms])
  have 2: "distinct (map (\<lambda>(n, h, u). ident u) (continuations outs))"
    using assms(1) by (simp add: continuations_def distinct_map_sort)
  have 3: "(n, h, u) \<in> set (continuations outs)"
    using assms(2) by (simp add: set_continuations)
  show ?thesis
    unfolding settle_def
    by (rule fold_writeHash
        [of "continuations outs" n h u "fold given (awaiting outs) Map.empty" "body u", OF 2 3 1])
qed

section \<open>Entries kept and entries offloaded\<close>

lemma small_string_kept:
  "effectiveType ref \<noteq> json \<Longrightarrow> value ref = JStr v \<Longrightarrow> length v \<le> 200 \<Longrightarrow>
     uint8ArrayIfBig L ref = Inr None"
  by (cases "effectiveType ref")
     (simp_all add: uint8ArrayIfBig_def lengthExceeds_def ENV_VAR_DATA_ITEM_LENGTH_MAX_def)

lemma small_json_kept:
  "effectiveType ref = json \<Longrightarrow> length (stringify L (value ref)) \<le> 200 \<Longrightarrow>
     uint8ArrayIfBig L ref = Inr None"
  by (simp add: uint8ArrayIfBig_def ENV_VAR_DATA_ITEM_LENGTH_MAX_def Let_def)

lemma big_string:
  "effectiveType ref \<noteq> json \<Longrightarrow> effectiveType ref \<noteq> DataRefType.hash \<Longrightarrow>
   value ref = JStr v \<Longrightarrow> 200 < length v \<Longrightarrow>
     uint8ArrayIfBig L ref =
       ifBig (if effectiveType ref = utf8 then utf8ToBuffer L (JStr v) else base64ToBuffer L (JStr v))"
  by (cases "effectiveType ref")
     (simp_all add: uint8ArrayIfBig_def lengthExceeds_def ENV_VAR_DATA_ITEM_LENGTH_MAX_def)

lemma big_json:
  "effectiveType ref = json \<Longrightarrow> truthy (value ref) \<Longrightarrow> 200 < length (stringify L (value ref)) \<Longrightarrow>
     uint8ArrayIfBig L ref = ifBig (utf8ToBuffer L (JStr (stringify L (value ref))))"
  by (simp add: uint8ArrayIfBig_def ENV_VAR_DATA_ITEM_LENGTH_MAX_def Let_def)

lemma name_started:
  assumes "entries L inp up (map fst inp) s = (outs, calls, s')" and "map_of inp name = Some ref"
  shows "name \<in> fst ` set outs"
proof -
  have "name \<in> fst ` set inp" using assms(2) by (metis map_of_SomeD fst_conv image_eqI)
  then show ?thesis using entries_keys [of L inp up "map fst inp" s] assms(1)
    by (metis fst_conv list.set_map)
qed

lemma kept_started:
  assumes "entries L inp up (map fst inp) s = (outs, calls, s')"
    and "map_of inp name = Some ref" and "uint8ArrayIfBig L ref = Inr None"
    and "(name, out) \<in> set outs"
  shows "out = Keeps ref"
proof -
  from entries_outs [OF assms(1,4)] obtain s0 cs s1 where
    "entry L inp up name s0 = (out, cs, s1)" by blast
  with entry_kept [OF assms(2,3), of up s0] show ?thesis by simp
qed

lemma big_started:
  assumes "entries L inp up (map fst inp) s = (outs, calls, s')"
    and "map_of inp name = Some ref" and "uint8ArrayIfBig L ref = Inr (Some buf)"
    and "(name, out) \<in> set outs"
  shows "\<exists>r. out = Awaits (sha1 L (HBytes buf)) r \<and> (name, buf, r) \<in> set calls"
proof -
  from entries_outs [OF assms(1,4)] obtain s0 cs s1 where
    e: "entry L inp up name s0 = (out, cs, s1)" and sub: "Pair name ` set cs \<subseteq> set calls" by blast
  from e entry_big [OF assms(2,3), of up s0]
  have "out = Awaits (sha1 L (HBytes buf)) (fst (up buf s0))" "cs = [(buf, fst (up buf s0))]"
    by simp_all
  with sub show ?thesis by auto
qed

lemma kept_entry:
  assumes "map_of inp name = Some ref" and "uint8ArrayIfBig L ref = Inr None"
  shows "name \<notin> fst ` set (uploads (copyLargeBlobsToRemote L (Some inp) up s))"
    and "returned (copyLargeBlobsToRemote L (Some inp) up s) = Inr (Some m) \<Longrightarrow> m name = Some ref"
    and "refAt (resultObject (copyLargeBlobsToRemote L (Some inp) up s)) name = Some (Kept ref)"
proof -
  obtain outs calls s' where r: "entries L inp up (map fst inp) s = (outs, calls, s')"
    by (cases "entries L inp up (map fst inp) s")
  show "name \<notin> fst ` set (uploads (copyLargeBlobsToRemote L (Some inp) up s))"
  proof
    assume "name \<in> fst ` set (uploads (copyLargeBlobsToRemote L (Some inp) up s))"
    then obtain c where "(name, c) \<in> set calls" using r by (auto simp: copy_uploads)
    from entries_calls [OF r this] obtain s0 out cs s1 where
      "entry L inp up name s0 = (out, cs, s1)" "c \<in> set cs" by blast
    with entry_kept [OF assms, of up s0] show False by simp
  qed
  have all: "\<forall>out. (name, out) \<in> set outs \<longrightarrow> out = Keeps ref"
    using kept_started [OF r assms] by blast
  have started: "name \<in> fst ` set outs" by (rule name_started [OF r assms(1)])
  have "name \<notin> fst ` set (continuations outs)"
  proof
    assume "name \<in> fst ` set (continuations outs)"
    then obtain h u where "(name, h, u) \<in> set (awaiting outs)"
      by (auto simp: set_continuations)
    then have "(name, Awaits h (Inr u)) \<in> set outs" by (simp add: set_awaiting)
    with all show False by auto
  qed
  then have slot: "refAt (assemble outs) name = Some (Kept ref)"
    unfolding assemble_def by (simp add: refAt_installing_other refAt_keeping [OF all started])
  then show "refAt (resultObject (copyLargeBlobsToRemote L (Some inp) up s)) name = Some (Kept ref)"
    using r by (simp add: copy_result)
  assume "returned (copyLargeBlobsToRemote L (Some inp) up s) = Inr (Some m)"
  then have "m = contents (settle outs) (assemble outs)"
    using r by (auto simp: copy_returned split: option.splits)
  with slot show "m name = Some ref" by (simp add: contents_def deref_def)
qed

lemma uploaded_slot:
  assumes "map_of inp name = Some ref" and "uint8ArrayIfBig L ref = Inr (Some buf)"
    and "returned (copyLargeBlobsToRemote L (Some inp) up s) = Inr (Some m)"
  shows "\<exists>u. (name, buf, Inr u) \<in> set (uploads (copyLargeBlobsToRemote L (Some inp) up s))
           \<and> refAt (resultObject (copyLargeBlobsToRemote L (Some inp) up s)) name
               = Some (Uploaded (ident u))
           \<and> m name = settle (fst (entries L inp up (map fst inp) s)) (ident u)
           \<and> (name, sha1 L (HBytes buf), u) \<in> set (awaiting (fst (entries L inp up (map fst inp) s)))"
proof -
  obtain outs calls s' where r: "entries L inp up (map fst inp) s = (outs, calls, s')"
    by (cases "entries L inp up (map fst inp) s")
  from assms(3) have fe: "firstError outs = None" and m: "m = contents (settle outs) (assemble outs)"
    using r by (auto simp: copy_returned split: option.splits)
  have started: "name \<in> fst ` set outs" by (rule name_started [OF r assms(1)])
  then obtain out where o: "(name, out) \<in> set outs" by auto
  from big_started [OF r assms(1,2) o] obtain r0 where
    out: "out = Awaits (sha1 L (HBytes buf)) r0" by blast
  from firstError_None [OF fe o] out obtain u0 where "r0 = Inr u0" by auto
  with o out have "(name, sha1 L (HBytes buf), u0) \<in> set (awaiting outs)" by (simp add: set_awaiting)
  then have "name \<in> fst ` set (continuations outs)"
    by (metis set_continuations fst_conv image_eqI)
  from refAt_installing [OF this] obtain h u where
    c: "(name, h, u) \<in> set (continuations outs)"
    and slot: "refAt (assemble outs) name = Some (Uploaded (ident u))"
    unfolding assemble_def by blast
  from c have aw: "(name, h, u) \<in> set (awaiting outs)" by (simp add: set_continuations)
  then have o2: "(name, Awaits h (Inr u)) \<in> set outs" by (simp add: set_awaiting)
  from big_started [OF r assms(1,2) o2] have h: "h = sha1 L (HBytes buf)"
    and call: "(name, buf, Inr u) \<in> set calls" by auto
  from slot m have "m name = settle outs (ident u)" by (simp add: contents_def deref_def)
  with call slot aw h r show ?thesis by (auto simp: copy_uploads copy_result)
qed

lemma offloaded_entry:
  assumes "map_of inp name = Some ref" and "uint8ArrayIfBig L ref = Inr (Some buf)"
    and "returned (copyLargeBlobsToRemote L (Some inp) up s) = Inr (Some m)"
    and "distinct (map ident (resolved (uploads (copyLargeBlobsToRemote L (Some inp) up s))))"
  shows "\<exists>u. (name, buf, Inr u) \<in> set (uploads (copyLargeBlobsToRemote L (Some inp) up s))
           \<and> m name = Some ((body u)\<lparr>hash := Some (sha1 L (HBytes buf))\<rparr>)"
proof -
  obtain outs calls s' where r: "entries L inp up (map fst inp) s = (outs, calls, s')"
    by (cases "entries L inp up (map fst inp) s")
  from uploaded_slot [OF assms(1,2,3)] r obtain u where
    call: "(name, buf, Inr u) \<in> set (uploads (copyLargeBlobsToRemote L (Some inp) up s))"
    and m: "m name = settle outs (ident u)"
    and aw: "(name, sha1 L (HBytes buf), u) \<in> set (awaiting outs)" by auto
  have "map (\<lambda>(n, h, u). ident u) (awaiting outs) = map ident (map (\<lambda>(n, h, u). u) (awaiting outs))"
    by (simp add: comp_def case_prod_unfold)
  also have "\<dots> = map ident (resolved calls)" by (simp add: awaiting_resolved [OF r])
  finally have "distinct (map (\<lambda>(n, h, u). ident u) (awaiting outs))"
    using assms(4) r by (simp add: copy_uploads)
  from settle_distinct [OF this aw] m call show ?thesis by auto
qed

lemma offloaded_once:
  assumes "map_of inp name = Some ref" and "uint8ArrayIfBig L ref = Inr (Some buf)"
    and "distinct (map fst inp)"
  shows "\<exists>r. filter (\<lambda>c. fst c = name) (uploads (copyLargeBlobsToRemote L (Some inp) up s)) = [(name, buf, r)]"
proof -
  have "name \<in> set (map fst inp)" using assms(1) by (metis map_of_SomeD fst_conv image_eqI list.set_map)
  from entries_calls_of [OF refl assms(3) this, of L inp up s] obtain s0 where
    "filter (\<lambda>c. fst c = name) (fst (snd (entries L inp up (map fst inp) s)))
       = map (Pair name) (fst (snd (entry L inp up name s0)))" by blast
  then show ?thesis by (simp add: copy_uploads entry_big [OF assms(1,2)])
qed

lemma failed_upload_fails:
  assumes "(name, buf, Inl e) \<in> set (uploads (copyLargeBlobsToRemote L (Some inp) up s))"
  shows "\<exists>e'. returned (copyLargeBlobsToRemote L (Some inp) up s) = Inl e'"
proof -
  obtain outs calls s' where r: "entries L inp up (map fst inp) s = (outs, calls, s')"
    by (cases "entries L inp up (map fst inp) s")
  from assms r have "(name, buf, Inl e) \<in> set calls" by (simp add: copy_uploads)
  from entries_calls [OF r this] obtain s0 out cs s1 where
    e: "entry L inp up name s0 = (out, cs, s1)" "(buf, Inl e) \<in> set cs" "(name, out) \<in> set outs" by blast
  from entry_shape [OF e(1)] e(2) obtain h where "out = Awaits h (Inl e)" by auto
  with e(3) firstError_Some obtain e' where "firstError outs = Some e'" by blast
  with r show ?thesis by (simp add: copy_returned)
qed

lemma failed_decoding_fails:
  assumes "map_of inp name = Some ref" and "uint8ArrayIfBig L ref = Inl e"
  shows "name \<notin> fst ` set (uploads (copyLargeBlobsToRemote L (Some inp) up s))"
    and "\<exists>e'. returned (copyLargeBlobsToRemote L (Some inp) up s) = Inl e'"
proof -
  obtain outs calls s' where r: "entries L inp up (map fst inp) s = (outs, calls, s')"
    by (cases "entries L inp up (map fst inp) s")
  show "name \<notin> fst ` set (uploads (copyLargeBlobsToRemote L (Some inp) up s))"
  proof
    assume "name \<in> fst ` set (uploads (copyLargeBlobsToRemote L (Some inp) up s))"
    then obtain c where "(name, c) \<in> set calls" using r by (auto simp: copy_uploads)
    from entries_calls [OF r this] obtain s0 out cs s1 where
      "entry L inp up name s0 = (out, cs, s1)" "c \<in> set cs" by blast
    with entry_failed [OF assms, of up s0] show False by simp
  qed
  have "name \<in> fst ` set outs" by (rule name_started [OF r assms(1)])
  then obtain out where o: "(name, out) \<in> set outs" by auto
  from entries_outs [OF r o] obtain s0 cs s1 where
    "entry L inp up name s0 = (out, cs, s1)" by blast
  with entry_failed [OF assms, of up s0] have "out = Rejects e" by simp
  with o firstError_Some obtain e' where "firstError outs = Some e'" by blast
  with r show "\<exists>e'. returned (copyLargeBlobsToRemote L (Some inp) up s) = Inl e'"
    by (simp add: copy_returned)
qed




section \<open>The sample codecs on repeated characters\<close>

lemma utf8Units_ascii:
  "\<forall>c \<in> set s. unat c < 0x80 \<Longrightarrow> utf8Units s = Some (map (\<lambda>c. of_nat (unat c)) s)"
proof (induction s rule: utf8Units.induct)
  case 1
  then show ?case by simp
next
  case (2 c)
  then show ?case by (simp add: isHigh_def isLow_def utf8Unit_def)
next
  case (3 c d cs)
  then have "\<not> isHigh c" "\<not> isLow c" by (simp_all add: isHigh_def isLow_def)
  with 3 show ?case by (simp add: utf8Unit_def)
qed

lemma sampleUtf8_replicate:
  "unat c < 0x80 \<Longrightarrow>
     sampleUtf8ToBuffer (JStr (replicate n c)) = Inr (replicate n (of_nat (unat c)))"
  by (simp add: sampleUtf8ToBuffer_def utf8Units_ascii)

lemma sextets_replicate_A: "sextets (replicate n 0x41) = Some (replicate n 0)"
  by (induction n) (simp_all add: sextet_def)

lemma octets_replicate_0: "octets (replicate (4 * k) 0) = replicate (3 * k) 0"
proof (induction k)
  case 0
  then show ?case by simp
next
  case (Suc k)
  have "replicate (4 * Suc k) (0::nat) = 0 # 0 # 0 # 0 # replicate (4 * k) 0"
    by (simp add: replicate_add [symmetric] numeral_eq_Suc)
  moreover have "replicate (3 * Suc k) (0::nat) = 0 # 0 # 0 # replicate (3 * k) 0"
    by (simp add: numeral_eq_Suc)
  ultimately show ?case using Suc by simp
qed

lemma atob_replicate_A: "atob (replicate (4 * k) 0x41) = Some (replicate (3 * k) 0)"
proof -
  have "unpad (replicate (4 * k) (0x41 :: 16 word)) = replicate (4 * k) 0x41"
    by (cases k) (simp_all add: unpad_def)
  then show ?thesis
    by (simp add: atob_def isSpace_def sextets_replicate_A octets_replicate_0)
qed

section \<open>The sample base64 codec inverts its encoder\<close>

lemma unat_small: "n < 65536 \<Longrightarrow> unat (of_nat n :: 16 word) = n"
  by (simp add: unat_of_nat)

lemma unat_digit:
  assumes "n < 64"
  shows "unat (digit n) =
     (if n < 26 then n + 65 else if n < 52 then n + 71 else if n < 62 then n - 4
      else if n = 62 then 43 else 47)"
proof -
  have a: "unat (of_nat (n + 65) :: 16 word) = n + 65"
    and b: "unat (of_nat (n + 71) :: 16 word) = n + 71"
    and c: "unat (of_nat (n - 4) :: 16 word) = n - 4"
    using assms by (simp_all only: unat_small)
  show ?thesis
    unfolding digit_def using a b c by (simp only: if_distrib [of unat] unat_numeral) simp
qed

lemma sextet_digit: "n < 64 \<Longrightarrow> sextet (digit n) = Some n"
  unfolding sextet_def Let_def by (simp only: unat_digit) (simp; arith)

lemma digit_plain: "n < 64 \<Longrightarrow> \<not> isSpace (digit n) \<and> digit n \<noteq> 0x3D"
proof -
  assume "n < 64"
  then have "sextet (digit n) = Some n" by (rule sextet_digit)
  moreover have "sextet c = None" if "isSpace c \<or> c = 0x3D" for c
    using that by (auto simp: sextet_def isSpace_def)
  ultimately show ?thesis by force
qed

lemma toSextets_small: "\<forall>x \<in> set xs. x < 256 \<Longrightarrow> \<forall>n \<in> set (toSextets xs). n < 64"
  by (induction xs rule: toSextets.induct) auto

lemma sextets_digits: "\<forall>n \<in> set ns. n < 64 \<Longrightarrow> sextets (map digit ns) = Some ns"
  by (induction ns) (simp_all add: sextet_digit)

lemma octets_toSextets:
  "\<forall>x \<in> set xs. x < 256 \<Longrightarrow> octets (toSextets xs) = xs"
proof (induction xs rule: toSextets.induct)
  case (1 x y z r)
  from 1(2) have "y < 256" "z < 256" by simp_all
  then have "y div 16 < 16" "z div 64 < 4" by arith+
  with 1 show ?case by simp
next
  case (2 x y)
  then have "y < 256" by simp
  then have "y div 16 < 16" by arith
  then show ?case by simp
qed simp_all

lemma length_toSextets:
  "length (toSextets xs) = length xs div 3 * 4 + (if length xs mod 3 = 0 then 0 else length xs mod 3 + 1)"
proof (induction xs rule: toSextets.induct)
  case (1 x y z r)
  have "(3 + length r) div 3 = Suc (length r div 3)" "(3 + length r) mod 3 = length r mod 3"
    by simp_all
  with 1 show ?case by simp
qed simp_all

lemma unpad_plain: "(xs \<noteq> [] \<Longrightarrow> last xs \<noteq> 0x3D) \<Longrightarrow> unpad xs = xs"
  by (auto simp: unpad_def)

lemma unpad_one:
  "length xs mod 4 = 3 \<Longrightarrow> last xs \<noteq> 0x3D \<Longrightarrow> unpad (xs @ [0x3D]) = xs"
  by (auto simp: unpad_def Let_def mod_Suc)

lemma unpad_two:
  "length xs mod 4 = 2 \<Longrightarrow> last xs \<noteq> 0x3D \<Longrightarrow> unpad (xs @ [0x3D, 0x3D]) = xs"
  by (auto simp: unpad_def Let_def mod_Suc butlast_append)

lemma atob_btoa: "atob (btoa b) = Some b"
proof -
  let ?xs = "map unat b"
  let ?ns = "toSextets ?xs"
  let ?ds = "map digit ?ns"
  have "unat x < 256" for x :: "8 word"
    using unsigned_less [of x] by simp
  then have small: "\<forall>x \<in> set ?xs. x < 256" by auto
  then have ns: "\<forall>n \<in> set ?ns. n < 64" by (rule toSextets_small)
  have plain: "\<forall>c \<in> set ?ds. \<not> isSpace c \<and> c \<noteq> 0x3D"
    using ns digit_plain by auto
  have nospace: "filter (\<lambda>c. \<not> isSpace c) (btoa b) = btoa b"
    using plain by (auto simp: btoa_def filter_id_conv isSpace_def)
  have lastd: "?ds \<noteq> [] \<Longrightarrow> last ?ds \<noteq> 0x3D"
    using plain last_in_set by blast
  have len: "length ?ds = length b div 3 * 4 + (if length b mod 3 = 0 then 0 else length b mod 3 + 1)"
    using length_toSextets [of ?xs] by simp
  consider "length b mod 3 = 0" | "length b mod 3 = 1" | "length b mod 3 = 2" by linarith
  then have unp: "unpad (btoa b) = ?ds \<and> length ?ds mod 4 \<noteq> 1"
  proof cases
    case 1
    then have "btoa b = ?ds" by (simp add: btoa_def)
    moreover have "length ?ds mod 4 = 0" using len 1 by simp
    ultimately show ?thesis using unpad_plain [of ?ds] lastd by simp
  next
    case 2
    then have "btoa b = ?ds @ [0x3D, 0x3D]" by (simp add: btoa_def numeral_2_eq_2)
    moreover have l: "length ?ds mod 4 = 2" using len 2 by simp presburger
    moreover from l have "?ds \<noteq> []" by auto
    ultimately show ?thesis using unpad_two [of ?ds] lastd by simp
  next
    case 3
    then have "btoa b = ?ds @ [0x3D]" by (simp add: btoa_def)
    moreover have l: "length ?ds mod 4 = 3" using len 3 by simp
    moreover from l have "?ds \<noteq> []" by auto
    ultimately show ?thesis using unpad_one [of ?ds] lastd by simp
  qed
  have "sextets ?ds = Some ?ns" using ns by (rule sextets_digits)
  moreover have "map of_nat (octets ?ns) = b"
    using octets_toSextets [OF small] by (simp add: comp_def)
  ultimately show ?thesis
    using unp nospace by (simp add: atob_def Let_def)
qed

section \<open>Runs in the sample environment\<close>

lemma length_units: "length (units s) = length s"
  by (simp add: units_def)





lemma atob_undecodable: "atob (replicate 201 0x41) = None"
  by (simp add: atob_def unpad_def isSpace_def)

lemmas run_defs0 =
  copyLargeBlobsToRemote_def entry_def uint8ArrayIfBig_def lengthExceeds_def effectiveType_def
  ENV_VAR_DATA_ITEM_LENGTH_MAX_def ifBig_def returned_def uploads_def resultObject_def sampleLib_def
  sampleUpload_def sampleStore_def sharedStore_def base64ToDataRef_def DataRefTypeDefault_def
  smallRef_def bigRef_def scenario_def stored_def sampleUtf8_replicate
  continuations_def settle_def given_def writeHash_def assemble_def assign_def
  refAt_def deref_def contents_def

lemmas run_defs = run_defs0 units_def

lemma scenario_uploads:
  "uploads (copyLargeBlobsToRemote sampleLib (Some scenario) (sampleStore 1) []) =
     [(units ''b'', replicate 201 0x78, Inr \<lparr>ident = 0, body = stored 0, settles = 0\<rparr>)]"
  by (simp add: run_defs)

lemma scenario_returned:
  "\<exists>m. returned (copyLargeBlobsToRemote sampleLib (Some scenario) (sampleStore 1) []) = Inr (Some m)
     \<and> m (units ''a'') = Some smallRef
     \<and> m (units ''b'') = Some ((stored 0)\<lparr>hash := Some (sha1 sampleLib (HBytes (replicate 201 0x78)))\<rparr>)"
  by (simp add: run_defs)

lemma scenario_result:
  "resultObject (copyLargeBlobsToRemote sampleLib (Some scenario) (sampleStore 1) []) =
     \<lparr>own = [units ''a'' \<mapsto> Kept smallRef, units ''b'' \<mapsto> Uploaded 0], proto = None\<rparr>"
  by (simp add: run_defs)





lemma overfull_uploads:
  "uploads (copyLargeBlobsToRemote sampleLib (Some overfull) (sampleStore 1) []) =
     [(units ''b'', replicate 201 0x78, Inr \<lparr>ident = 0, body = stored 0, settles = 0\<rparr>),
      (units ''c'', replicate 201 0x79, Inl (Rejected (units ''store full'')))]"
  by (simp add: run_defs overfull_def)



section \<open>The claims\<close>

text \<open>
  C1. The claim: a \<open>DataRef\<close> without a \<open>type\<close> has effective type \<open>json\<close> when its
  \<open>value\<close> is a structured object, and \<open>base64\<close> otherwise. The code computes
  \<open>dataRef.type || DataRefTypeDefault\<close> and never looks at \<open>value\<close>: for the object
  \<open>{a: 1}\<close> without a type the effective type is \<open>base64\<close>, so \<open>dataRefToBlob\<close> hands
  the object to \<open>Unibabel.base64ToBuffer\<close> and \<open>copyLargeBlobsToRemote\<close> takes the
  \<open>base64\<close> branch (an object has no \<open>length\<close>, and the entry is kept). The comments of
  \<open>DataRefType\<close> and \<open>DataRefTypeDefault\<close> say that an object is assumed to be \<open>json\<close>.
\<close>

theorem absent_type_object_is_base64:
  "(\<forall>v h. effectiveType \<lparr>value = v, hash = h, type = None\<rparr> = base64)
   \<and> effectiveType \<lparr>value = JObj [(units ''a'', JNum 1)], hash = None, type = None\<rparr> = base64
   \<and> effectiveType \<lparr>value = JObj [(units ''a'', JNum 1)], hash = None, type = None\<rparr> \<noteq> json
   \<and> dataRefToBlob L \<lparr>value = JObj [(units ''a'', JNum 1)], hash = None, type = None\<rparr>
       = newBlob (base64ToBuffer L (JObj [(units ''a'', JNum 1)]))
   \<and> uint8ArrayIfBig L \<lparr>value = JObj [(units ''a'', JNum 1)], hash = None, type = None\<rparr> = Inr None"
  by (simp add: effectiveType_def DataRefTypeDefault_def dataRefToBlob_def uint8ArrayIfBig_def
      lengthExceeds_def units_def)

text \<open>
  C8. A \<open>DataRef\<close> whose effective type is \<open>hash\<close> never converts to a blob:
  \<open>dataRefToBlob\<close> throws its cannot-convert error.
\<close>

theorem hash_never_converts:
  "effectiveType dataRef = DataRefType.hash \<Longrightarrow>
     dataRefToBlob L dataRef = Inl (Thrown (units ''Cannot crate blob from type=hash''))"
  by (simp add: dataRefToBlob_def)

text \<open>An instance of C8: a \<open>hash\<close>-typed reference in the sample environment.\<close>

theorem hash_never_converts_witness:
  "effectiveType \<lparr>value = JStr (units ''3a5f''), hash = None, type = Some DataRefType.hash\<rparr> = DataRefType.hash
   \<and> dataRefToBlob sampleLib \<lparr>value = JStr (units ''3a5f''), hash = None, type = Some DataRefType.hash\<rparr>
       = Inl (Thrown (units ''Cannot crate blob from type=hash''))"
proof -
  have h: "effectiveType \<lparr>value = JStr (units ''3a5f''), hash = None, type = Some DataRefType.hash\<rparr> = DataRefType.hash"
    by (simp add: effectiveType_def)
  from h hash_never_converts [OF h, of sampleLib] show ?thesis by simp
qed

text \<open>
  C2, with the threshold each function uses. In \<open>copyLargeBlobsToRemote\<close> an entry whose inline payload is below 200
  units (the string of a \<open>base64\<close> or \<open>utf8\<close> entry, the serialised text of a \<open>json\<close>
  entry) makes no upload call and is the identical entry in the mapping returned. In
  \<open>base64ToDataRef\<close> a value shorter than the option \<open>maxLengthUnmodified\<close> (200 when the
  option is omitted) makes no upload call and comes back with the same value, type
  \<open>base64\<close>, and the digest of the string as hash (no hash under \<open>ignoreHash\<close>).
\<close>

theorem below_threshold_kept:
  "(map_of inp name = Some ref \<and>
      ((effectiveType ref = json \<and> int (length (stringify L (value ref))) < 200)
       \<or> ((effectiveType ref = base64 \<or> effectiveType ref = utf8) \<and> value ref = JStr v
            \<and> int (length v) < 200))
    \<longrightarrow> name \<notin> fst ` set (uploads (copyLargeBlobsToRemote L (Some inp) up s))
        \<and> (\<forall>m. returned (copyLargeBlobsToRemote L (Some inp) up s) = Inr (Some m)
               \<longrightarrow> m name = Some ref))
   \<and> (int (length b) < (case maxLengthUnmodified options of None \<Rightarrow> 200 | Some m \<Rightarrow> m)
    \<longrightarrow> uploads (base64ToDataRef L b options t) = []
        \<and> returned (base64ToDataRef L b options t) =
            Inr \<lparr>value = JStr b,
                 hash = (if ignoreHash options = Some True then None else Some (sha1 L (HString b))),
                 type = Some base64\<rparr>)"
proof (intro conjI impI)
  assume a: "map_of inp name = Some ref \<and>
      ((effectiveType ref = json \<and> int (length (stringify L (value ref))) < 200)
       \<or> ((effectiveType ref = base64 \<or> effectiveType ref = utf8) \<and> value ref = JStr v
            \<and> int (length v) < 200))"
  then have k: "uint8ArrayIfBig L ref = Inr None"
    using small_json_kept [of ref L] small_string_kept [of ref v L] by auto
  from a have l: "map_of inp name = Some ref" by simp
  show "name \<notin> fst ` set (uploads (copyLargeBlobsToRemote L (Some inp) up s))"
    by (rule kept_entry(1) [OF l k])
  show "\<forall>m. returned (copyLargeBlobsToRemote L (Some inp) up s) = Inr (Some m) \<longrightarrow> m name = Some ref"
  proof (intro allI impI)
    fix m assume "returned (copyLargeBlobsToRemote L (Some inp) up s) = Inr (Some m)"
    then show "m name = Some ref" by (rule kept_entry(2) [OF l k])
  qed
next
  assume "int (length b) < (case maxLengthUnmodified options of None \<Rightarrow> 200 | Some m \<Rightarrow> m)"
  then show "uploads (base64ToDataRef L b options t) = []"
    by (simp add: base64ToDataRef_def uploads_def Let_def)
next
  assume "int (length b) < (case maxLengthUnmodified options of None \<Rightarrow> 200 | Some m \<Rightarrow> m)"
  then show "returned (base64ToDataRef L b options t) =
            Inr \<lparr>value = JStr b,
                 hash = (if ignoreHash options = Some True then None else Some (sha1 L (HString b))),
                 type = Some base64\<rparr>"
    by (auto simp: base64ToDataRef_def returned_def Let_def split: option.splits)
qed

text \<open>An instance of C2: entry \<open>a\<close> of the sample mapping, and the string \<open>aGVsbG8=\<close>.\<close>

theorem below_threshold_kept_witness:
  "map_of scenario (units ''a'') = Some smallRef
   \<and> effectiveType smallRef = utf8
   \<and> value smallRef = JStr (units ''x'')
   \<and> int (length (units ''x'')) < 200
   \<and> units ''a'' \<notin> fst ` set (uploads (copyLargeBlobsToRemote sampleLib (Some scenario) (sampleStore 1) []))
   \<and> (\<exists>m. returned (copyLargeBlobsToRemote sampleLib (Some scenario) (sampleStore 1) []) = Inr (Some m)
          \<and> m (units ''a'') = Some smallRef)
   \<and> int (length (units ''aGVsbG8='')) < 200
   \<and> uploads (base64ToDataRef sampleLib (units ''aGVsbG8='')
         \<lparr>upload = sampleUpload 1, ignoreHash = Some False, maxLengthUnmodified = Some 200\<rparr> []) = []
   \<and> returned (base64ToDataRef sampleLib (units ''aGVsbG8='')
         \<lparr>upload = sampleUpload 1, ignoreHash = Some False, maxLengthUnmodified = Some 200\<rparr> [])
       = Inr \<lparr>value = JStr (units ''aGVsbG8=''), hash = Some (units ''string:aGVsbG8=''), type = Some base64\<rparr>"
  using below_threshold_kept [of scenario "units ''a''" smallRef sampleLib "units ''x''"
      "sampleStore 1" "[]" "units ''aGVsbG8=''"
      "\<lparr>upload = sampleUpload 1, ignoreHash = Some False, maxLengthUnmodified = Some 200\<rparr>" "[]"]
  by (simp add: run_defs)

text \<open>
  C2 with 200 as the threshold of \<open>base64ToDataRef\<close> does not hold: the threshold is
  the option \<open>maxLengthUnmodified\<close>. With the option at 100, a value of 150 units is
  below 200 and is uploaded.
\<close>

theorem below_200_still_uploaded:
  "int (length (replicate 150 (0x41 :: 16 word))) < 200
   \<and> uploads (base64ToDataRef sampleLib (replicate 150 0x41)
        \<lparr>upload = sampleUpload 1, ignoreHash = None, maxLengthUnmodified = Some 100\<rparr> [])
      = [(replicate 150 0x41, Inr (stored 0))]"
  by (simp add: run_defs)

text \<open>
  C3, above the threshold. In \<open>copyLargeBlobsToRemote\<close> an entry whose inline payload is
  longer than 200 units goes to the decoder of its type: the string of a \<open>base64\<close> or
  \<open>utf8\<close> entry, the serialised text of a \<open>json\<close> entry whose value is truthy (the code
  skips a falsy one). If the decoder gives the bytes \<open>buf\<close>, and the keys of the input are
  distinct, as those of an object are, the upload function is called exactly once for
  the entry, with \<open>buf\<close>. If the decoder rejects the payload, no upload call is made for
  the entry and the invocation fails. An entry whose payload is exactly 200 units makes
  no upload call. In \<open>base64ToDataRef\<close> a value at or above \<open>maxLengthUnmodified\<close> (200
  when omitted) has the upload function called exactly once, with the value.
\<close>

theorem oversized_uploaded_once:
  "(distinct (map fst inp) \<and> map_of inp name = Some ref \<and>
      ((effectiveType ref = json \<and> truthy (value ref)
          \<and> 200 < int (length (stringify L (value ref)))
          \<and> utf8ToBuffer L (JStr (stringify L (value ref))) = Inr buf)
       \<or> (effectiveType ref = utf8 \<and> value ref = JStr v \<and> 200 < int (length v)
          \<and> utf8ToBuffer L (JStr v) = Inr buf)
       \<or> (effectiveType ref = base64 \<and> value ref = JStr v \<and> 200 < int (length v)
          \<and> base64ToBuffer L (JStr v) = Inr buf))
    \<longrightarrow> (\<exists>r. filter (\<lambda>c. fst c = name) (uploads (copyLargeBlobsToRemote L (Some inp) up s))
              = [(name, buf, r)]))
   \<and> (map_of inp name = Some ref \<and>
      ((effectiveType ref = json \<and> truthy (value ref)
          \<and> 200 < int (length (stringify L (value ref)))
          \<and> utf8ToBuffer L (JStr (stringify L (value ref))) = Inl e)
       \<or> (effectiveType ref = utf8 \<and> value ref = JStr v \<and> 200 < int (length v)
          \<and> utf8ToBuffer L (JStr v) = Inl e)
       \<or> (effectiveType ref = base64 \<and> value ref = JStr v \<and> 200 < int (length v)
          \<and> base64ToBuffer L (JStr v) = Inl e))
    \<longrightarrow> name \<notin> fst ` set (uploads (copyLargeBlobsToRemote L (Some inp) up s))
        \<and> (\<exists>e'. returned (copyLargeBlobsToRemote L (Some inp) up s) = Inl e'))
   \<and> (map_of inp name = Some ref \<and>
      ((effectiveType ref = json \<and> int (length (stringify L (value ref))) = 200)
       \<or> ((effectiveType ref = base64 \<or> effectiveType ref = utf8) \<and> value ref = JStr v
            \<and> int (length v) = 200))
    \<longrightarrow> name \<notin> fst ` set (uploads (copyLargeBlobsToRemote L (Some inp) up s)))
   \<and> ((case maxLengthUnmodified options of None \<Rightarrow> 200 | Some m \<Rightarrow> m) \<le> int (length b)
    \<longrightarrow> (\<exists>r. uploads (base64ToDataRef L b options t) = [(b, r)]))"
proof (intro conjI impI)
  assume a: "distinct (map fst inp) \<and> map_of inp name = Some ref \<and>
      ((effectiveType ref = json \<and> truthy (value ref)
          \<and> 200 < int (length (stringify L (value ref)))
          \<and> utf8ToBuffer L (JStr (stringify L (value ref))) = Inr buf)
       \<or> (effectiveType ref = utf8 \<and> value ref = JStr v \<and> 200 < int (length v)
          \<and> utf8ToBuffer L (JStr v) = Inr buf)
       \<or> (effectiveType ref = base64 \<and> value ref = JStr v \<and> 200 < int (length v)
          \<and> base64ToBuffer L (JStr v) = Inr buf))"
  then have "uint8ArrayIfBig L ref = Inr (Some buf)"
    using big_json [of ref L] big_string [of ref v L] by (auto simp: ifBig_def)
  with a offloaded_once [of inp name ref L buf up s]
  show "\<exists>r. filter (\<lambda>c. fst c = name) (uploads (copyLargeBlobsToRemote L (Some inp) up s))
              = [(name, buf, r)]" by blast
next
  assume a: "map_of inp name = Some ref \<and>
      ((effectiveType ref = json \<and> truthy (value ref)
          \<and> 200 < int (length (stringify L (value ref)))
          \<and> utf8ToBuffer L (JStr (stringify L (value ref))) = Inl e)
       \<or> (effectiveType ref = utf8 \<and> value ref = JStr v \<and> 200 < int (length v)
          \<and> utf8ToBuffer L (JStr v) = Inl e)
       \<or> (effectiveType ref = base64 \<and> value ref = JStr v \<and> 200 < int (length v)
          \<and> base64ToBuffer L (JStr v) = Inl e))"
  then have f: "uint8ArrayIfBig L ref = Inl e"
    using big_json [of ref L] big_string [of ref v L] by (auto simp: ifBig_def)
  from a have l: "map_of inp name = Some ref" by simp
  show "name \<notin> fst ` set (uploads (copyLargeBlobsToRemote L (Some inp) up s))"
    by (rule failed_decoding_fails(1) [OF l f])
  show "\<exists>e'. returned (copyLargeBlobsToRemote L (Some inp) up s) = Inl e'"
    by (rule failed_decoding_fails(2) [OF l f])
next
  assume a: "map_of inp name = Some ref \<and>
      ((effectiveType ref = json \<and> int (length (stringify L (value ref))) = 200)
       \<or> ((effectiveType ref = base64 \<or> effectiveType ref = utf8) \<and> value ref = JStr v
            \<and> int (length v) = 200))"
  then have k: "uint8ArrayIfBig L ref = Inr None"
    using small_json_kept [of ref L] small_string_kept [of ref v L] by auto
  from a have l: "map_of inp name = Some ref" by simp
  show "name \<notin> fst ` set (uploads (copyLargeBlobsToRemote L (Some inp) up s))"
    by (rule kept_entry(1) [OF l k])
next
  assume "(case maxLengthUnmodified options of None \<Rightarrow> 200 | Some m \<Rightarrow> m) \<le> int (length b)"
  then show "\<exists>r. uploads (base64ToDataRef L b options t) = [(b, r)]"
    by (cases "upload options b t"; cases "fst (upload options b t)")
       (auto simp: base64ToDataRef_def uploads_def Let_def split: option.splits)
qed

text \<open>
  An instance of C3: entry \<open>b\<close> of the sample mapping, a \<open>base64\<close> entry of 201 characters
  \<open>A\<close> that the decoder rejects, a text of exactly 200 characters, and \<open>aGVsbG8=\<close> at
  threshold 8.
\<close>

theorem oversized_uploaded_once_witness:
  "distinct (map fst scenario)
   \<and> map_of scenario (units ''b'') = Some (bigRef 0x78)
   \<and> effectiveType (bigRef 0x78) = utf8
   \<and> value (bigRef 0x78) = JStr (replicate 201 0x78)
   \<and> 200 < int (length (replicate 201 (0x78 :: 16 word)))
   \<and> utf8ToBuffer sampleLib (JStr (replicate 201 0x78)) = Inr (replicate 201 0x78)
   \<and> filter (\<lambda>c. fst c = units ''b'')
        (uploads (copyLargeBlobsToRemote sampleLib (Some scenario) (sampleStore 1) []))
      = [(units ''b'', replicate 201 0x78, Inr \<lparr>ident = 0, body = stored 0, settles = 0\<rparr>)]
   \<and> map_of [(units ''d'', undecodable)] (units ''d'') = Some undecodable
   \<and> effectiveType undecodable = base64
   \<and> value undecodable = JStr (replicate 201 0x41)
   \<and> 200 < int (length (replicate 201 (0x41 :: 16 word)))
   \<and> base64ToBuffer sampleLib (JStr (replicate 201 0x41)) = Inl (Rejected (units ''InvalidCharacterError''))
   \<and> units ''d'' \<notin> fst ` set (uploads (copyLargeBlobsToRemote sampleLib (Some [(units ''d'', undecodable)])
        (sampleStore 1) []))
   \<and> (\<exists>e'. returned (copyLargeBlobsToRemote sampleLib (Some [(units ''d'', undecodable)])
        (sampleStore 1) []) = Inl e')
   \<and> map_of [(units ''e'', exact)] (units ''e'') = Some exact
   \<and> effectiveType exact = utf8
   \<and> value exact = JStr (replicate 200 0x78)
   \<and> int (length (replicate 200 (0x78 :: 16 word))) = 200
   \<and> units ''e'' \<notin> fst ` set (uploads (copyLargeBlobsToRemote sampleLib (Some [(units ''e'', exact)])
        (sampleStore 1) []))
   \<and> 8 \<le> int (length (units ''aGVsbG8=''))
   \<and> uploads (base64ToDataRef sampleLib (units ''aGVsbG8='')
        \<lparr>upload = sampleUpload 1, ignoreHash = None, maxLengthUnmodified = Some 8\<rparr> [])
      = [(units ''aGVsbG8='', Inr (stored 0))]"
proof -
  have b1: "distinct (map fst scenario)" by (simp add: scenario_def units_def)
  have b2: "map_of scenario (units ''b'') = Some (bigRef 0x78)" by (simp add: scenario_def units_def)
  have b3: "effectiveType (bigRef 0x78) = utf8" by (simp add: bigRef_def effectiveType_def)
  have b4: "value (bigRef 0x78) = JStr (replicate 201 0x78)" by (simp add: bigRef_def)
  have b5: "200 < int (length (replicate 201 (0x78 :: 16 word)))" by simp
  have b6: "utf8ToBuffer sampleLib (JStr (replicate 201 0x78)) = Inr (replicate 201 0x78)"
    by (simp add: sampleLib_def sampleUtf8_replicate)
  have b7: "filter (\<lambda>c. fst c = units ''b'')
        (uploads (copyLargeBlobsToRemote sampleLib (Some scenario) (sampleStore 1) []))
      = [(units ''b'', replicate 201 0x78, Inr \<lparr>ident = 0, body = stored 0, settles = 0\<rparr>)]"
    by (simp only: scenario_uploads) (simp add: units_def)
  have d1: "map_of [(units ''d'', undecodable)] (units ''d'') = Some undecodable" by simp
  have d2: "effectiveType undecodable = base64" by (simp add: undecodable_def effectiveType_def)
  have d3: "value undecodable = JStr (replicate 201 0x41)" by (simp add: undecodable_def)
  have d4: "200 < int (length (replicate 201 (0x41 :: 16 word)))" by simp
  have d5: "base64ToBuffer sampleLib (JStr (replicate 201 0x41)) = Inl (Rejected (units ''InvalidCharacterError''))"
    by (simp add: sampleLib_def sampleBase64ToBuffer_def atob_undecodable)
  have e1: "map_of [(units ''e'', exact)] (units ''e'') = Some exact" by simp
  have e2: "effectiveType exact = utf8" by (simp add: exact_def effectiveType_def)
  have e3: "value exact = JStr (replicate 200 0x78)" by (simp add: exact_def)
  have e4: "int (length (replicate 200 (0x78 :: 16 word))) = 200" by simp
  note d = oversized_uploaded_once [of "[(units ''d'', undecodable)]" "units ''d''" undecodable sampleLib
        "[]" "replicate 201 0x41" "sampleStore 1" "[]" "Rejected (units ''InvalidCharacterError'')"
        "\<lparr>upload = sampleUpload 1, ignoreHash = None, maxLengthUnmodified = Some 8\<rparr>"
        "units ''aGVsbG8=''" "[]"]
  from d d1 d2 d3 d4 d5
  have d6: "units ''d'' \<notin> fst ` set (uploads (copyLargeBlobsToRemote sampleLib (Some [(units ''d'', undecodable)])
        (sampleStore 1) []))"
    and d7: "\<exists>e'. returned (copyLargeBlobsToRemote sampleLib (Some [(units ''d'', undecodable)])
        (sampleStore 1) []) = Inl e'"
    by blast+
  note e = oversized_uploaded_once [of "[(units ''e'', exact)]" "units ''e''" exact sampleLib
        "[]" "replicate 200 0x78" "sampleStore 1" "[]" "Rejected []"
        "\<lparr>upload = sampleUpload 1, ignoreHash = None, maxLengthUnmodified = Some 8\<rparr>"
        "units ''aGVsbG8=''" "[]"]
  from e e1 e2 e3 e4
  have e5: "units ''e'' \<notin> fst ` set (uploads (copyLargeBlobsToRemote sampleLib (Some [(units ''e'', exact)])
        (sampleStore 1) []))"
    by blast
  have t1: "8 \<le> int (length (units ''aGVsbG8=''))" by (simp add: length_units)
  have t2: "uploads (base64ToDataRef sampleLib (units ''aGVsbG8='')
        \<lparr>upload = sampleUpload 1, ignoreHash = None, maxLengthUnmodified = Some 8\<rparr> [])
      = [(units ''aGVsbG8='', Inr (stored 0))]"
    by (simp add: run_defs)
  show ?thesis
    by (intro conjI) (rule b1 b2 b3 b4 b5 b6 b7 d1 d2 d3 d4 d5 d6 d7 e1 e2 e3 e4 e5 t1 t2)+
qed

text \<open>
  C3 as stated does not hold. \<open>copyLargeBlobsToRemote\<close> tests \<open>length > 200\<close>, so a
  payload of exactly 200 units is not uploaded and the entry is kept. And a payload
  above the threshold that its decoder rejects is not uploaded either: for a \<open>base64\<close>
  entry of 201 characters \<open>A\<close> no upload call is made and the invocation fails.
\<close>

theorem at_threshold_not_uploaded:
  "200 \<le> int (length (replicate 200 (0x78 :: 16 word)))
   \<and> uploads (copyLargeBlobsToRemote sampleLib
        (Some [(units ''b'', \<lparr>value = JStr (replicate 200 0x78), hash = None, type = Some utf8\<rparr>)])
        (sampleStore 1) []) = []
   \<and> resultObject (copyLargeBlobsToRemote sampleLib
        (Some [(units ''b'', \<lparr>value = JStr (replicate 200 0x78), hash = None, type = Some utf8\<rparr>)])
        (sampleStore 1) [])
      = \<lparr>own = [units ''b'' \<mapsto> Kept \<lparr>value = JStr (replicate 200 0x78), hash = None, type = Some utf8\<rparr>],
         proto = None\<rparr>
   \<and> 200 \<le> int (length (replicate 201 (0x41 :: 16 word)))
   \<and> uploads (copyLargeBlobsToRemote sampleLib
        (Some [(units ''d'', \<lparr>value = JStr (replicate 201 0x41), hash = None, type = Some base64\<rparr>)])
        (sampleStore 1) []) = []
   \<and> returned (copyLargeBlobsToRemote sampleLib
        (Some [(units ''d'', \<lparr>value = JStr (replicate 201 0x41), hash = None, type = Some base64\<rparr>)])
        (sampleStore 1) [])
      = Inl (Rejected (units ''InvalidCharacterError''))"
  by (simp add: run_defs sampleBase64ToBuffer_def atob_undecodable)

text \<open>
  C4, with what each function hashes. In \<open>copyLargeBlobsToRemote\<close> an entry marked for
  offload is uploaded as the bytes \<open>buf\<close> that its payload decodes to. When the invocation
  returns a mapping, and the upload calls of the run returned pairwise different
  objects, the entry of the mapping is the \<open>DataRef\<close> that its upload call returned with
  the hash overwritten by \<open>sha1\<close> of \<open>buf\<close>. In \<open>base64ToDataRef\<close>, unless \<open>ignoreHash\<close> is
  set, the result is the \<open>DataRef\<close> the upload call returned with the hash overwritten by
  \<open>sha1\<close> of the base64 string as given, not of the bytes it decodes to.
\<close>

theorem offloaded_hash_is_local_digest:
  "(map_of inp name = Some ref \<and> uint8ArrayIfBig L ref = Inr (Some buf)
    \<longrightarrow> Inr buf =
          (case effectiveType ref of
             json \<Rightarrow> utf8ToBuffer L (JStr (stringify L (value ref)))
           | utf8 \<Rightarrow> utf8ToBuffer L (value ref)
           | _ \<Rightarrow> base64ToBuffer L (value ref))
        \<and> (\<forall>m. returned (copyLargeBlobsToRemote L (Some inp) up s) = Inr (Some m)
               \<and> distinct (map ident (resolved (uploads (copyLargeBlobsToRemote L (Some inp) up s))))
             \<longrightarrow> (\<exists>u. (name, buf, Inr u) \<in> set (uploads (copyLargeBlobsToRemote L (Some inp) up s))
                    \<and> m name = Some ((body u)\<lparr>hash := Some (sha1 L (HBytes buf))\<rparr>))))
   \<and> (ignoreHash options \<noteq> Some True
      \<and> (case maxLengthUnmodified options of None \<Rightarrow> 200 | Some m \<Rightarrow> m) \<le> int (length b)
      \<and> returned (base64ToDataRef L b options t) = Inr r
    \<longrightarrow> (\<exists>remoteRef. uploads (base64ToDataRef L b options t) = [(b, Inr remoteRef)]
           \<and> r = remoteRef\<lparr>hash := Some (sha1 L (HString b))\<rparr>))"
proof (intro conjI impI allI)
  assume a: "map_of inp name = Some ref \<and> uint8ArrayIfBig L ref = Inr (Some buf)"
  then show "Inr buf =
          (case effectiveType ref of
             json \<Rightarrow> utf8ToBuffer L (JStr (stringify L (value ref)))
           | utf8 \<Rightarrow> utf8ToBuffer L (value ref)
           | _ \<Rightarrow> base64ToBuffer L (value ref))"
    by (cases "effectiveType ref")
       (auto simp: uint8ArrayIfBig_def ifBig_def Let_def split: if_splits sum.splits)
next
  fix m
  assume a: "map_of inp name = Some ref \<and> uint8ArrayIfBig L ref = Inr (Some buf)"
    and b: "returned (copyLargeBlobsToRemote L (Some inp) up s) = Inr (Some m)
               \<and> distinct (map ident (resolved (uploads (copyLargeBlobsToRemote L (Some inp) up s))))"
  from a have a1: "map_of inp name = Some ref" and a2: "uint8ArrayIfBig L ref = Inr (Some buf)"
    by simp_all
  from b have b1: "returned (copyLargeBlobsToRemote L (Some inp) up s) = Inr (Some m)"
    and b2: "distinct (map ident (resolved (uploads (copyLargeBlobsToRemote L (Some inp) up s))))"
    by simp_all
  show "\<exists>u. (name, buf, Inr u) \<in> set (uploads (copyLargeBlobsToRemote L (Some inp) up s))
      \<and> m name = Some ((body u)\<lparr>hash := Some (sha1 L (HBytes buf))\<rparr>)"
    by (rule offloaded_entry [OF a1 a2 b1 b2])
next
  assume "ignoreHash options \<noteq> Some True
      \<and> (case maxLengthUnmodified options of None \<Rightarrow> 200 | Some m \<Rightarrow> m) \<le> int (length b)
      \<and> returned (base64ToDataRef L b options t) = Inr r"
  then show "\<exists>remoteRef. uploads (base64ToDataRef L b options t) = [(b, Inr remoteRef)]
           \<and> r = remoteRef\<lparr>hash := Some (sha1 L (HString b))\<rparr>"
    by (cases "upload options b t"; cases "fst (upload options b t)")
       (auto simp: base64ToDataRef_def uploads_def returned_def Let_def split: option.splits)
qed

text \<open>
  An instance of C4: entry \<open>b\<close> of the sample mapping, whose upload returns an object
  with the hash \<open>remote\<close>, and \<open>aGVsbG8=\<close> at threshold 8.
\<close>

theorem offloaded_hash_is_local_digest_witness:
  "map_of scenario (units ''b'') = Some (bigRef 0x78)
   \<and> uint8ArrayIfBig sampleLib (bigRef 0x78) = Inr (Some (replicate 201 0x78))
   \<and> Inr (replicate 201 0x78) = utf8ToBuffer sampleLib (value (bigRef 0x78))
   \<and> distinct (map ident (resolved (uploads (copyLargeBlobsToRemote sampleLib (Some scenario) (sampleStore 1) []))))
   \<and> hash (stored 0) = Some (units ''remote'')
   \<and> (units ''b'', replicate 201 0x78, Inr \<lparr>ident = 0, body = stored 0, settles = 0\<rparr>)
        \<in> set (uploads (copyLargeBlobsToRemote sampleLib (Some scenario) (sampleStore 1) []))
   \<and> (\<exists>m. returned (copyLargeBlobsToRemote sampleLib (Some scenario) (sampleStore 1) []) = Inr (Some m)
         \<and> m (units ''b'') = Some ((stored 0)\<lparr>hash := Some (sha1 sampleLib (HBytes (replicate 201 0x78)))\<rparr>))
   \<and> ignoreHash \<lparr>upload = sampleUpload 1, ignoreHash = None, maxLengthUnmodified = Some 8\<rparr> = None
   \<and> 8 \<le> int (length (units ''aGVsbG8=''))
   \<and> uploads (base64ToDataRef sampleLib (units ''aGVsbG8='')
        \<lparr>upload = sampleUpload 1, ignoreHash = None, maxLengthUnmodified = Some 8\<rparr> [])
      = [(units ''aGVsbG8='', Inr (stored 0))]
   \<and> returned (base64ToDataRef sampleLib (units ''aGVsbG8='')
        \<lparr>upload = sampleUpload 1, ignoreHash = None, maxLengthUnmodified = Some 8\<rparr> [])
      = Inr ((stored 0)\<lparr>hash := Some (sha1 sampleLib (HString (units ''aGVsbG8='')))\<rparr>)"
proof -
  have a1: "map_of scenario (units ''b'') = Some (bigRef 0x78)" by (simp add: scenario_def units_def)
  have a2: "uint8ArrayIfBig sampleLib (bigRef 0x78) = Inr (Some (replicate 201 0x78))"
    by (simp add: run_defs0)
  have a3: "distinct (map ident (resolved (uploads (copyLargeBlobsToRemote sampleLib (Some scenario) (sampleStore 1) []))))"
    by (simp only: scenario_uploads) simp
  have a4: "hash (stored 0) = Some (units ''remote'')" by (simp add: stored_def)
  have a5: "(units ''b'', replicate 201 0x78, Inr \<lparr>ident = 0, body = stored 0, settles = 0\<rparr>)
        \<in> set (uploads (copyLargeBlobsToRemote sampleLib (Some scenario) (sampleStore 1) []))"
    by (simp only: scenario_uploads) simp
  have t0: "ignoreHash \<lparr>upload = sampleUpload 1, ignoreHash = None, maxLengthUnmodified = Some 8\<rparr> = None"
    by simp
  have t1: "8 \<le> int (length (units ''aGVsbG8=''))" by (simp add: length_units)
  have t2: "returned (base64ToDataRef sampleLib (units ''aGVsbG8='')
        \<lparr>upload = sampleUpload 1, ignoreHash = None, maxLengthUnmodified = Some 8\<rparr> [])
      = Inr ((stored 0)\<lparr>hash := Some (sha1 sampleLib (HString (units ''aGVsbG8='')))\<rparr>)"
    by (simp add: run_defs)
  note w = offloaded_hash_is_local_digest [of scenario "units ''b''" "bigRef 0x78" sampleLib
      "replicate 201 0x78" "sampleStore 1" "[]"
      "\<lparr>upload = sampleUpload 1, ignoreHash = None, maxLengthUnmodified = Some 8\<rparr>"
      "units ''aGVsbG8=''" "[]"
      "(stored 0)\<lparr>hash := Some (sha1 sampleLib (HString (units ''aGVsbG8='')))\<rparr>"]
  from w a1 a2
  have c1: "Inr (replicate 201 0x78) =
          (case effectiveType (bigRef 0x78) of
             json \<Rightarrow> utf8ToBuffer sampleLib (JStr (stringify sampleLib (value (bigRef 0x78))))
           | utf8 \<Rightarrow> utf8ToBuffer sampleLib (value (bigRef 0x78))
           | _ \<Rightarrow> base64ToBuffer sampleLib (value (bigRef 0x78)))"
    by blast
  then have c1': "Inr (replicate 201 0x78) = utf8ToBuffer sampleLib (value (bigRef 0x78))"
    by (simp add: effectiveType_def bigRef_def)
  obtain m where m: "returned (copyLargeBlobsToRemote sampleLib (Some scenario) (sampleStore 1) []) = Inr (Some m)"
    using scenario_returned by blast
  from w a1 a2 m a3
  obtain u where u: "(units ''b'', replicate 201 0x78, Inr u)
        \<in> set (uploads (copyLargeBlobsToRemote sampleLib (Some scenario) (sampleStore 1) []))"
    and mu: "m (units ''b'') = Some ((body u)\<lparr>hash := Some (sha1 sampleLib (HBytes (replicate 201 0x78)))\<rparr>)"
    by blast
  from u have "u = \<lparr>ident = 0, body = stored 0, settles = 0\<rparr>"
    by (simp only: scenario_uploads) simp
  with mu have c2: "m (units ''b'') = Some ((stored 0)\<lparr>hash := Some (sha1 sampleLib (HBytes (replicate 201 0x78)))\<rparr>)"
    by simp
  from m c2 have c3: "\<exists>m. returned (copyLargeBlobsToRemote sampleLib (Some scenario) (sampleStore 1) []) = Inr (Some m)
         \<and> m (units ''b'') = Some ((stored 0)\<lparr>hash := Some (sha1 sampleLib (HBytes (replicate 201 0x78)))\<rparr>)"
    by blast
  from w t0 t1 t2
  have "\<exists>remoteRef. uploads (base64ToDataRef sampleLib (units ''aGVsbG8='')
        \<lparr>upload = sampleUpload 1, ignoreHash = None, maxLengthUnmodified = Some 8\<rparr> []) = [(units ''aGVsbG8='', Inr remoteRef)]
      \<and> (stored 0)\<lparr>hash := Some (sha1 sampleLib (HString (units ''aGVsbG8='')))\<rparr>
          = remoteRef\<lparr>hash := Some (sha1 sampleLib (HString (units ''aGVsbG8='')))\<rparr>"
    by simp
  have t3: "uploads (base64ToDataRef sampleLib (units ''aGVsbG8='')
        \<lparr>upload = sampleUpload 1, ignoreHash = None, maxLengthUnmodified = Some 8\<rparr> [])
      = [(units ''aGVsbG8='', Inr (stored 0))]"
    by (simp add: run_defs)
  show ?thesis
    by (intro conjI) (rule a1 a2 c1' a3 a4 a5 c3 t0 t1 t3 t2)+
qed

text \<open>
  C4 as stated does not hold. In \<open>base64ToDataRef\<close> the hash installed is the digest of
  the string \<open>aGVsbG8=\<close>, and not the digest of the five bytes \<open>hello\<close> the string decodes
  to (the sample digest, like \<open>objectHash.sha1\<close>, tells a string from a byte array). In
  \<open>copyLargeBlobsToRemote\<close>, when the upload function returns one and the same object for
  the entries \<open>b\<close> and \<open>c\<close>, both continuations write their hash into that object, and
  the entry \<open>b\<close> of the mapping returned carries the digest of the bytes of \<open>c\<close>.
\<close>

theorem base64ToDataRef_hashes_the_string:
  "returned (base64ToDataRef sampleLib (units ''aGVsbG8='')
      \<lparr>upload = sampleUpload 1, ignoreHash = None, maxLengthUnmodified = Some 8\<rparr> [])
     = Inr \<lparr>value = JStr (units ''blob-0''), hash = Some (units ''string:aGVsbG8=''),
            type = Some DataRefType.hash\<rparr>
   \<and> sha1 sampleLib (HString (units ''aGVsbG8='')) = units ''string:aGVsbG8=''
   \<and> base64ToBuffer sampleLib (JStr (units ''aGVsbG8='')) = Inr [104, 101, 108, 108, 111]
   \<and> sha1 sampleLib (HBytes [104, 101, 108, 108, 111]) = units ''bytes:hello''
   \<and> units ''string:aGVsbG8='' \<noteq> units ''bytes:hello''
   \<and> map_of twoBig (units ''b'') = Some (bigRef 0x78)
   \<and> uint8ArrayIfBig sampleLib (bigRef 0x78) = Inr (Some (replicate 201 0x78))
   \<and> uploads (copyLargeBlobsToRemote sampleLib (Some twoBig) sharedStore [])
       = [(units ''b'', replicate 201 0x78, Inr \<lparr>ident = 0, body = stored 0, settles = 0\<rparr>),
          (units ''c'', replicate 201 0x79, Inr \<lparr>ident = 0, body = stored 0, settles = 1\<rparr>)]
   \<and> returned (copyLargeBlobsToRemote sampleLib (Some twoBig) sharedStore [])
       = Inr (Some (contents
           [0 \<mapsto> (stored 0)\<lparr>hash := Some (sha1 sampleLib (HBytes (replicate 201 0x79)))\<rparr>]
           \<lparr>own = [units ''b'' \<mapsto> Uploaded 0, units ''c'' \<mapsto> Uploaded 0], proto = None\<rparr>))
   \<and> contents
         [0 \<mapsto> (stored 0)\<lparr>hash := Some (sha1 sampleLib (HBytes (replicate 201 0x79)))\<rparr>]
         \<lparr>own = [units ''b'' \<mapsto> Uploaded 0, units ''c'' \<mapsto> Uploaded 0], proto = None\<rparr> (units ''b'')
       = Some ((stored 0)\<lparr>hash := Some (sha1 sampleLib (HBytes (replicate 201 0x79)))\<rparr>)
   \<and> sha1 sampleLib (HBytes (replicate 201 0x79)) \<noteq> sha1 sampleLib (HBytes (replicate 201 0x78))"
  by (simp add: run_defs twoBig_def sampleBase64ToBuffer_def atob_def unpad_def isSpace_def sextet_def)

text \<open>
  C5. If an upload call made during \<open>copyLargeBlobsToRemote\<close> fails, the invocation
  fails: it returns an error and no mapping.
\<close>

theorem failed_upload_fails_batch:
  "(name, buf, Inl e) \<in> set (uploads (copyLargeBlobsToRemote L (Some inp) up s)) \<Longrightarrow>
     \<exists>e'. returned (copyLargeBlobsToRemote L (Some inp) up s) = Inl e'"
  by (rule failed_upload_fails)

text \<open>
  An instance of C5: with room for one blob, the upload for \<open>b\<close> succeeds, the upload
  for \<open>c\<close> is rejected, and the invocation fails.
\<close>

theorem failed_upload_fails_batch_witness:
  "(units ''c'', replicate 201 0x79, Inl (Rejected (units ''store full'')))
      \<in> set (uploads (copyLargeBlobsToRemote sampleLib (Some overfull) (sampleStore 1) []))
   \<and> (units ''b'', replicate 201 0x78, Inr \<lparr>ident = 0, body = stored 0, settles = 0\<rparr>)
      \<in> set (uploads (copyLargeBlobsToRemote sampleLib (Some overfull) (sampleStore 1) []))
   \<and> (\<exists>e'. returned (copyLargeBlobsToRemote sampleLib (Some overfull) (sampleStore 1) []) = Inl e')"
proof -
  have c: "(units ''c'', replicate 201 0x79, Inl (Rejected (units ''store full'')))
      \<in> set (uploads (copyLargeBlobsToRemote sampleLib (Some overfull) (sampleStore 1) []))"
    by (simp only: overfull_uploads) simp
  have b: "(units ''b'', replicate 201 0x78, Inr \<lparr>ident = 0, body = stored 0, settles = 0\<rparr>)
      \<in> set (uploads (copyLargeBlobsToRemote sampleLib (Some overfull) (sampleStore 1) []))"
    by (simp only: overfull_uploads) simp
  have r: "\<exists>e'. returned (copyLargeBlobsToRemote sampleLib (Some overfull) (sampleStore 1) []) = Inl e'"
    by (rule failed_upload_fails_batch [OF c])
  show ?thesis
    by (intro conjI) (rule c b r)+
qed




text \<open>
  C7. An entry whose effective type is \<open>hash\<close> makes no upload call, whatever the size of
  its value, and is the identical entry in the mapping returned.
\<close>

theorem hash_entries_pass_through:
  "map_of inp name = Some ref \<Longrightarrow> effectiveType ref = DataRefType.hash \<Longrightarrow>
     name \<notin> fst ` set (uploads (copyLargeBlobsToRemote L (Some inp) up s))
     \<and> (\<forall>m. returned (copyLargeBlobsToRemote L (Some inp) up s) = Inr (Some m) \<longrightarrow> m name = Some ref)"
proof -
  assume l: "map_of inp name = Some ref" and h: "effectiveType ref = DataRefType.hash"
  then have k: "uint8ArrayIfBig L ref = Inr None" by (simp add: uint8ArrayIfBig_def)
  show ?thesis
  proof (intro conjI allI impI)
    show "name \<notin> fst ` set (uploads (copyLargeBlobsToRemote L (Some inp) up s))"
      by (rule kept_entry(1) [OF l k])
    fix m assume "returned (copyLargeBlobsToRemote L (Some inp) up s) = Inr (Some m)"
    then show "m name = Some ref" by (rule kept_entry(2) [OF l k])
  qed
qed

text \<open>An instance of C7: a \<open>hash\<close>-typed entry of 300 characters.\<close>

theorem hash_entries_pass_through_witness:
  "map_of ((units ''h'', handle) # scenario) (units ''h'') = Some handle
   \<and> effectiveType handle = DataRefType.hash
   \<and> value handle = JStr (replicate 300 0x61)
   \<and> units ''h'' \<notin> fst ` set (uploads (copyLargeBlobsToRemote sampleLib
         (Some ((units ''h'', handle) # scenario)) (sampleStore 1) []))
   \<and> (\<exists>m. returned (copyLargeBlobsToRemote sampleLib
         (Some ((units ''h'', handle) # scenario)) (sampleStore 1) []) = Inr (Some m)
        \<and> m (units ''h'') = Some handle)"
  using hash_entries_pass_through [of "(units ''h'', handle) # scenario" "units ''h''" handle
      sampleLib "sampleStore 1" "[]"]
  by (simp add: run_defs handle_def)

text \<open>
  C9. Round trip. If the library decodes the base64 text \<open>e\<close> to the bytes \<open>B\<close>, the
  \<open>base64\<close>-typed \<open>DataRef\<close> of \<open>e\<close>, built by hand or by \<open>base64ToDataRef\<close> below its
  threshold, converts to a blob of exactly \<open>B\<close>. A \<open>utf8\<close>-typed \<open>DataRef\<close> converts to
  the UTF-8 bytes of its string, and a \<open>json\<close>-typed one to the UTF-8 bytes of the
  serialised value.
\<close>

theorem inline_round_trip:
  "(base64ToBuffer L (JStr e) = Inr B
    \<longrightarrow> dataRefToBlob L \<lparr>value = JStr e, hash = h, type = Some base64\<rparr> = Inr (Blob B)
        \<and> (int (length e) < (case maxLengthUnmodified options of None \<Rightarrow> 200 | Some m \<Rightarrow> m)
           \<longrightarrow> (\<exists>r. returned (base64ToDataRef L e options t) = Inr r
                    \<and> dataRefToBlob L r = Inr (Blob B))))
   \<and> (utf8ToBuffer L (JStr u) = Inr U
    \<longrightarrow> dataRefToBlob L \<lparr>value = JStr u, hash = h, type = Some utf8\<rparr> = Inr (Blob U))
   \<and> (utf8ToBuffer L (JStr (stringify L v)) = Inr J
    \<longrightarrow> dataRefToBlob L \<lparr>value = v, hash = h, type = Some json\<rparr> = Inr (Blob J))"
  by (auto simp: dataRefToBlob_def effectiveType_def newBlob_def base64ToDataRef_def returned_def
      Let_def split: option.splits)

text \<open>
  An instance of C9: in the sample environment the base64 text of every byte sequence
  converts back to that sequence; \<open>aGVsbG8=\<close> and \<open>hello\<close> both give the bytes of
  \<open>hello\<close>, and \<open>{a: 1}\<close> gives the bytes of \<open>{"a":1}\<close>.
\<close>

theorem inline_round_trip_witness:
  "(\<forall>B. base64ToBuffer sampleLib (JStr (btoa B)) = Inr B
        \<and> dataRefToBlob sampleLib \<lparr>value = JStr (btoa B), hash = None, type = Some base64\<rparr>
            = Inr (Blob B))
   \<and> btoa [104, 101, 108, 108, 111] = units ''aGVsbG8=''
   \<and> base64ToBuffer sampleLib (JStr (units ''aGVsbG8='')) = Inr [104, 101, 108, 108, 111]
   \<and> dataRefToBlob sampleLib \<lparr>value = JStr (units ''aGVsbG8=''), hash = None, type = Some base64\<rparr>
       = Inr (Blob [104, 101, 108, 108, 111])
   \<and> int (length (units ''aGVsbG8='')) < 200
   \<and> (\<exists>r. returned (base64ToDataRef sampleLib (units ''aGVsbG8='')
              \<lparr>upload = sampleUpload 1, ignoreHash = None, maxLengthUnmodified = None\<rparr> []) = Inr r
         \<and> dataRefToBlob sampleLib r = Inr (Blob [104, 101, 108, 108, 111]))
   \<and> utf8ToBuffer sampleLib (JStr (units ''hello'')) = Inr [104, 101, 108, 108, 111]
   \<and> dataRefToBlob sampleLib \<lparr>value = JStr (units ''hello''), hash = None, type = Some utf8\<rparr>
       = Inr (Blob [104, 101, 108, 108, 111])
   \<and> stringify sampleLib (JObj [(units ''a'', JNum 1)]) = [0x7B, 0x22, 0x61, 0x22, 0x3A, 0x31, 0x7D]
   \<and> utf8ToBuffer sampleLib (JStr (stringify sampleLib (JObj [(units ''a'', JNum 1)])))
       = Inr [0x7B, 0x22, 0x61, 0x22, 0x3A, 0x31, 0x7D]
   \<and> dataRefToBlob sampleLib \<lparr>value = JObj [(units ''a'', JNum 1)], hash = None, type = Some json\<rparr>
       = Inr (Blob [0x7B, 0x22, 0x61, 0x22, 0x3A, 0x31, 0x7D])"
proof -
  have dec: "base64ToBuffer sampleLib (JStr (btoa B)) = Inr B" for B
    by (simp add: sampleLib_def sampleBase64ToBuffer_def atob_btoa)
  have every: "(\<forall>B. base64ToBuffer sampleLib (JStr (btoa B)) = Inr B
        \<and> dataRefToBlob sampleLib \<lparr>value = JStr (btoa B), hash = None, type = Some base64\<rparr>
            = Inr (Blob B))"
  proof (intro allI conjI)
    fix B
    show "base64ToBuffer sampleLib (JStr (btoa B)) = Inr B" by (rule dec)
    show "dataRefToBlob sampleLib \<lparr>value = JStr (btoa B), hash = None, type = Some base64\<rparr>
            = Inr (Blob B)"
      using inline_round_trip [of sampleLib "btoa B" B None
          "\<lparr>upload = sampleUpload 1, ignoreHash = None, maxLengthUnmodified = None\<rparr>" "[]"
          "[]" "[]" JNull "[]"] dec [of B]
      by simp
  qed
  have enc: "btoa [104, 101, 108, 108, 111] = units ''aGVsbG8=''"
    by (simp add: btoa_def digit_def units_def)
  have one: "base64ToBuffer sampleLib (JStr (units ''aGVsbG8='')) = Inr [104, 101, 108, 108, 111]
   \<and> dataRefToBlob sampleLib \<lparr>value = JStr (units ''aGVsbG8=''), hash = None, type = Some base64\<rparr>
       = Inr (Blob [104, 101, 108, 108, 111])
   \<and> int (length (units ''aGVsbG8='')) < 200
   \<and> (\<exists>r. returned (base64ToDataRef sampleLib (units ''aGVsbG8='')
              \<lparr>upload = sampleUpload 1, ignoreHash = None, maxLengthUnmodified = None\<rparr> []) = Inr r
         \<and> dataRefToBlob sampleLib r = Inr (Blob [104, 101, 108, 108, 111]))
   \<and> utf8ToBuffer sampleLib (JStr (units ''hello'')) = Inr [104, 101, 108, 108, 111]
   \<and> dataRefToBlob sampleLib \<lparr>value = JStr (units ''hello''), hash = None, type = Some utf8\<rparr>
       = Inr (Blob [104, 101, 108, 108, 111])
   \<and> stringify sampleLib (JObj [(units ''a'', JNum 1)]) = [0x7B, 0x22, 0x61, 0x22, 0x3A, 0x31, 0x7D]
   \<and> utf8ToBuffer sampleLib (JStr (stringify sampleLib (JObj [(units ''a'', JNum 1)])))
       = Inr [0x7B, 0x22, 0x61, 0x22, 0x3A, 0x31, 0x7D]
   \<and> dataRefToBlob sampleLib \<lparr>value = JObj [(units ''a'', JNum 1)], hash = None, type = Some json\<rparr>
       = Inr (Blob [0x7B, 0x22, 0x61, 0x22, 0x3A, 0x31, 0x7D])"
    using inline_round_trip [of sampleLib "units ''aGVsbG8=''" "[104, 101, 108, 108, 111]" None
      "\<lparr>upload = sampleUpload 1, ignoreHash = None, maxLengthUnmodified = None\<rparr>" "[]"
      "units ''hello''" "[104, 101, 108, 108, 111]" "JObj [(units ''a'', JNum 1)]"
      "[0x7B, 0x22, 0x61, 0x22, 0x3A, 0x31, 0x7D]"]
    by (simp add: sampleLib_def units_def sampleBase64ToBuffer_def atob_def unpad_def isSpace_def
      sextet_def sampleUtf8ToBuffer_def isHigh_def isLow_def utf8Unit_def quote_def)
  show ?thesis
    by (rule conjI [OF every conjI [OF enc one]])
qed




end
